theory Spec2Isabelle
  imports Complex_Main "HOL-Library.AList"
begin

section \<open>JavaScript numbers\<close>

text \<open>
  A JavaScript number is an IEEE double. The model keeps the four kinds of double the
  code distinguishes (finite, plus and minus infinity, not-a-number) and takes a finite
  one as the real number it stands for; the two zeros are one value. The operations
  \<open>js_add\<close>, \<open>js_mul\<close> and \<open>js_div\<close> of this section give the exact real result on finite
  numbers, with no rounding and no overflow; the operations \<open>dbl_add\<close>, \<open>dbl_mul\<close> and
  \<open>dbl_div\<close> of the next section round it to a double. The scroll calculator, the cache
  and the SafeNumber methods are written with the exact operations, so their values
  are those of the program up to the rounding of each operation; \<^verbatim>\<open>generateSafeTicks\<close>
  is written with the double operations.
\<close>

datatype jsnum = Fin real | PosInf | NegInf | NaN

fun js_isNaN :: "jsnum \<Rightarrow> bool" where
  "js_isNaN NaN = True"
| "js_isNaN _ = False"

fun js_isFinite :: "jsnum \<Rightarrow> bool" where
  "js_isFinite (Fin r) = True"
| "js_isFinite _ = False"

fun Number_isInteger :: "jsnum \<Rightarrow> bool" where
  "Number_isInteger (Fin r) = (real_of_int \<lfloor>r\<rfloor> = r)"
| "Number_isInteger _ = False"

fun js_neg :: "jsnum \<Rightarrow> jsnum" where
  "js_neg (Fin r) = Fin (- r)"
| "js_neg PosInf = NegInf"
| "js_neg NegInf = PosInf"
| "js_neg NaN = NaN"

fun js_add :: "jsnum \<Rightarrow> jsnum \<Rightarrow> jsnum" where
  "js_add (Fin a) (Fin b) = Fin (a + b)"
| "js_add (Fin a) PosInf = PosInf"
| "js_add (Fin a) NegInf = NegInf"
| "js_add PosInf (Fin b) = PosInf"
| "js_add PosInf PosInf = PosInf"
| "js_add PosInf NegInf = NaN"
| "js_add NegInf (Fin b) = NegInf"
| "js_add NegInf NegInf = NegInf"
| "js_add NegInf PosInf = NaN"
| "js_add NaN b = NaN"
| "js_add a NaN = NaN"

definition js_sub :: "jsnum \<Rightarrow> jsnum \<Rightarrow> jsnum" where
  "js_sub a b = js_add a (js_neg b)"

text \<open>The sign of a number that is not NaN: \<open>-1\<close>, \<open>0\<close> or \<open>1\<close>.\<close>

fun js_sign :: "jsnum \<Rightarrow> int" where
  "js_sign (Fin r) = (if r < 0 then - 1 else if r = 0 then 0 else 1)"
| "js_sign PosInf = 1"
| "js_sign NegInf = - 1"
| "js_sign NaN = 0"

definition js_signed_inf :: "int \<Rightarrow> jsnum" where
  "js_signed_inf s = (if s = 0 then NaN else if 0 < s then PosInf else NegInf)"

fun js_mul :: "jsnum \<Rightarrow> jsnum \<Rightarrow> jsnum" where
  "js_mul NaN b = NaN"
| "js_mul a NaN = NaN"
| "js_mul (Fin a) (Fin b) = Fin (a * b)"
| "js_mul a b = js_signed_inf (js_sign a * js_sign b)"

text \<open>Division; a zero divisor is taken as positive zero.\<close>

fun js_div :: "jsnum \<Rightarrow> jsnum \<Rightarrow> jsnum" where
  "js_div NaN b = NaN"
| "js_div a NaN = NaN"
| "js_div (Fin a) (Fin b) = (if b = 0 then js_signed_inf (js_sign (Fin a)) else Fin (a / b))"
| "js_div (Fin a) b = Fin 0"
| "js_div a (Fin b) = js_signed_inf (js_sign a * (if b < 0 then - 1 else 1))"
| "js_div a b = NaN"

fun js_lt :: "jsnum \<Rightarrow> jsnum \<Rightarrow> bool" where
  "js_lt NaN b = False"
| "js_lt a NaN = False"
| "js_lt (Fin a) (Fin b) = (a < b)"
| "js_lt a NegInf = False"
| "js_lt NegInf b = True"
| "js_lt PosInf b = False"
| "js_lt a PosInf = True"

definition js_gt :: "jsnum \<Rightarrow> jsnum \<Rightarrow> bool" where
  "js_gt a b = js_lt b a"

definition js_le :: "jsnum \<Rightarrow> jsnum \<Rightarrow> bool" where
  "js_le a b = (\<not> js_isNaN a \<and> \<not> js_isNaN b \<and> \<not> js_lt b a)"

definition js_ge :: "jsnum \<Rightarrow> jsnum \<Rightarrow> bool" where
  "js_ge a b = js_le b a"

definition Math_max :: "jsnum \<Rightarrow> jsnum \<Rightarrow> jsnum" where
  "Math_max a b = (if js_isNaN a \<or> js_isNaN b then NaN else if js_lt a b then b else a)"

definition Math_min :: "jsnum \<Rightarrow> jsnum \<Rightarrow> jsnum" where
  "Math_min a b = (if js_isNaN a \<or> js_isNaN b then NaN else if js_lt b a then b else a)"

section \<open>Double arithmetic\<close>

text \<open>
  Rounding of a real number to binary64, to nearest with ties to even. \<open>ilog2 n\<close> is the
  position of the leading bit of \<open>n\<close>, and \<open>binaryExponent a\<close> the whole \<open>e\<close> with
  \<open>2^e \<le> a < 2^(e+1)\<close> for a positive \<open>a\<close>.
\<close>

fun ilog2 :: "nat \<Rightarrow> nat" where
  "ilog2 n = (if n < 2 then 0 else Suc (ilog2 (n div 2)))"

declare ilog2.simps [simp del]

definition pow2 :: "int \<Rightarrow> real" where
  "pow2 e = (if 0 \<le> e then 2 ^ nat e else 1 / 2 ^ nat (- e))"

definition binaryExponent :: "real \<Rightarrow> int" where
  "binaryExponent a =
     (if 1 \<le> a then int (ilog2 (nat \<lfloor>a\<rfloor>))
      else if a * 2 ^ ilog2 (nat \<lfloor>1 / a\<rfloor>) = 1 then - int (ilog2 (nat \<lfloor>1 / a\<rfloor>))
      else - int (ilog2 (nat \<lfloor>1 / a\<rfloor>)) - 1)"

definition roundHalfEven :: "real \<Rightarrow> int" where
  "roundHalfEven t =
     (if t - real_of_int \<lfloor>t\<rfloor> < 1 / 2 then \<lfloor>t\<rfloor>
      else if 1 / 2 < t - real_of_int \<lfloor>t\<rfloor> then \<lfloor>t\<rfloor> + 1
      else if even \<lfloor>t\<rfloor> then \<lfloor>t\<rfloor> else \<lfloor>t\<rfloor> + 1)"

text \<open>
  A positive real rounded to 53 significant bits; below \<open>2^(-1022)\<close> the spacing is that
  of the subnormal doubles, \<open>2^(-1074)\<close>.
\<close>

definition roundMagnitude :: "real \<Rightarrow> real" where
  "roundMagnitude a =
     real_of_int (roundHalfEven (a / pow2 (max (binaryExponent a) (- 1022) - 52))) *
       pow2 (max (binaryExponent a) (- 1022) - 52)"

text \<open>The double nearest to a real; a magnitude that rounds to \<open>2^1024\<close> is infinite.\<close>

definition round64 :: "real \<Rightarrow> jsnum" where
  "round64 x =
     (if x = 0 then Fin 0
      else if 2 ^ 1024 \<le> roundMagnitude \<bar>x\<bar> then (if 0 < x then PosInf else NegInf)
      else Fin (if 0 < x then roundMagnitude \<bar>x\<bar> else - roundMagnitude \<bar>x\<bar>))"

text \<open>
  The four operations on doubles: the exact result rounded when both operands are
  finite (and the divisor is not zero), and as before otherwise.
\<close>

definition dbl_add :: "jsnum \<Rightarrow> jsnum \<Rightarrow> jsnum" where
  "dbl_add x y =
     (case (x, y) of (Fin a, Fin b) \<Rightarrow> round64 (a + b) | _ \<Rightarrow> js_add x y)"

definition dbl_sub :: "jsnum \<Rightarrow> jsnum \<Rightarrow> jsnum" where
  "dbl_sub x y = dbl_add x (js_neg y)"

definition dbl_mul :: "jsnum \<Rightarrow> jsnum \<Rightarrow> jsnum" where
  "dbl_mul x y =
     (case (x, y) of (Fin a, Fin b) \<Rightarrow> round64 (a * b) | _ \<Rightarrow> js_mul x y)"

definition dbl_div :: "jsnum \<Rightarrow> jsnum \<Rightarrow> jsnum" where
  "dbl_div x y =
     (case (x, y) of
        (Fin a, Fin b) \<Rightarrow> (if b = 0 then js_div x y else round64 (a / b))
      | _ \<Rightarrow> js_div x y)"

section \<open>JavaScript values\<close>

text \<open>
  The values the utilities receive as \<^verbatim>\<open>unknown\<close>: the primitives, arrays and plain
  objects (a list of properties). Objects are compared by structure.
\<close>

datatype jsval =
    JUndefined
  | JNull
  | JBool bool
  | JNum jsnum
  | JStr string
  | JArr "jsval list"
  | JObj "(string \<times> jsval) list"

fun js_truthy :: "jsval \<Rightarrow> bool" where
  "js_truthy JUndefined = False"
| "js_truthy JNull = False"
| "js_truthy (JBool b) = b"
| "js_truthy (JNum n) = (n \<noteq> Fin 0 \<and> n \<noteq> NaN)"
| "js_truthy (JStr s) = (s \<noteq> [])"
| "js_truthy (JArr xs) = True"
| "js_truthy (JObj ps) = True"

fun js_typeof :: "jsval \<Rightarrow> string" where
  "js_typeof JUndefined = ''undefined''"
| "js_typeof JNull = ''object''"
| "js_typeof (JBool b) = ''boolean''"
| "js_typeof (JNum n) = ''number''"
| "js_typeof (JStr s) = ''string''"
| "js_typeof (JArr xs) = ''object''"
| "js_typeof (JObj ps) = ''object''"

text \<open>
  Reading a property that is no built-in one (\<^verbatim>\<open>item.id\<close>, \<^verbatim>\<open>item.height\<close>): an object
  gives the property's value or \<^verbatim>\<open>undefined\<close>, every other value gives \<^verbatim>\<open>undefined\<close>.
  The code reads properties of \<^verbatim>\<open>null\<close> and \<^verbatim>\<open>undefined\<close> only behind a truthiness
  guard or through \<^verbatim>\<open>?.\<close>, so the read never throws where it is used.
\<close>

fun js_get :: "jsval \<Rightarrow> string \<Rightarrow> jsval" where
  "js_get (JObj ps) k = (case map_of ps k of Some v \<Rightarrow> v | None \<Rightarrow> JUndefined)"
| "js_get v k = JUndefined"

text \<open>\<^verbatim>\<open>Number.isNaN(item)\<close>: true for the number NaN only, with no coercion.\<close>

fun Number_isNaN :: "jsval \<Rightarrow> bool" where
  "Number_isNaN (JNum n) = js_isNaN n"
| "Number_isNaN v = False"

text \<open>
  \<^verbatim>\<open>Number(input)\<close> on a value that is not a number belongs to the runtime (it parses
  strings and converts objects); the model takes it as a parameter \<open>Number\<close>, the
  number the conversion returns. The conversion can also throw; the call of the
  constructor with that throw is \<open>SafeNumberImpl_call\<close> below. The function below is
  the runtime's conversion on the values that need no parsing (\<^verbatim>\<open>undefined\<close>, \<^verbatim>\<open>null\<close>,
  booleans, numbers, the empty string, objects with the inherited \<^verbatim>\<open>toString\<close>); it
  serves to run the model on concrete inputs, which reach it on such values only.
\<close>

fun Number_plain :: "jsval \<Rightarrow> jsnum" where
  "Number_plain JUndefined = NaN"
| "Number_plain JNull = Fin 0"
| "Number_plain (JBool b) = Fin (if b then 1 else 0)"
| "Number_plain (JNum n) = n"
| "Number_plain (JStr s) = (if s = [] then Fin 0 else NaN)"
| "Number_plain (JArr xs) = NaN"
| "Number_plain (JObj ps) = NaN"

section \<open>SafeNumber\<close>

record SafeNumber =
  sn_value :: jsnum
  sn_isValid :: bool
  sn_isFinite :: bool
  sn_isInteger :: bool

text \<open>
  The constructor, from the number \<open>num\<close> its first line computes:
  \<^verbatim>\<open>isValid = !isNaN(num) && isFinite(num); value = isValid ? num : fallback\<close>.
\<close>

definition SafeNumberImpl_num :: "jsnum \<Rightarrow> jsnum \<Rightarrow> SafeNumber" where
  "SafeNumberImpl_num num fallback =
     \<lparr> sn_value = (if \<not> js_isNaN num \<and> js_isFinite num then num else fallback),
       sn_isValid = (\<not> js_isNaN num \<and> js_isFinite num),
       sn_isFinite = js_isFinite num,
       sn_isInteger = Number_isInteger num \<rparr>"

text \<open>\<^verbatim>\<open>const num = typeof input === 'number' ? input : Number(input)\<close>\<close>

definition coerceInput :: "(jsval \<Rightarrow> jsnum) \<Rightarrow> jsval \<Rightarrow> jsnum" where
  "coerceInput Number input = (case input of JNum n \<Rightarrow> n | _ \<Rightarrow> Number input)"

definition SafeNumberImpl :: "(jsval \<Rightarrow> jsnum) \<Rightarrow> jsval \<Rightarrow> jsnum \<Rightarrow> SafeNumber" where
  "SafeNumberImpl Number input fallback = SafeNumberImpl_num (coerceInput Number input) fallback"

definition safeNumber :: "(jsval \<Rightarrow> jsnum) \<Rightarrow> jsval \<Rightarrow> jsnum \<Rightarrow> SafeNumber" where
  "safeNumber Number input fallback = SafeNumberImpl Number input fallback"

text \<open>
  The call with its throw. \<^verbatim>\<open>Number(input)\<close> raises a TypeError for a Symbol and for an
  object that yields no primitive (its own \<^verbatim>\<open>toString\<close> is not callable), and passes on
  what a \<^verbatim>\<open>valueOf\<close> or \<^verbatim>\<open>toString\<close> of the input throws; the constructor has no
  \<^verbatim>\<open>try\<close>. A conversion is here a function to \<open>jsval + jsnum\<close>: \<open>Inl e\<close> when it throws \<open>e\<close>,
  \<open>Inr n\<close> when it returns \<open>n\<close>; so is the result of the call.
\<close>

definition coerceInput_call :: "(jsval \<Rightarrow> jsval + jsnum) \<Rightarrow> jsval \<Rightarrow> jsval + jsnum" where
  "coerceInput_call ToNumber input = (case input of JNum n \<Rightarrow> Inr n | _ \<Rightarrow> ToNumber input)"

definition SafeNumberImpl_call ::
  "(jsval \<Rightarrow> jsval + jsnum) \<Rightarrow> jsval \<Rightarrow> jsnum \<Rightarrow> jsval + SafeNumber" where
  "SafeNumberImpl_call ToNumber input fallback =
     (case coerceInput_call ToNumber input of
        Inl e \<Rightarrow> Inl e
      | Inr num \<Rightarrow> Inr (SafeNumberImpl_num num fallback))"

definition safeNumber_call ::
  "(jsval \<Rightarrow> jsval + jsnum) \<Rightarrow> jsval \<Rightarrow> jsnum \<Rightarrow> jsval + SafeNumber" where
  "safeNumber_call ToNumber input fallback = SafeNumberImpl_call ToNumber input fallback"

text \<open>
  The conversion that goes with \<open>Number_plain\<close>: an object of the model has data
  properties only, so it yields the primitive \<^verbatim>\<open>[object Object]\<close>, hence NaN, through the
  inherited \<^verbatim>\<open>toString\<close>, and a TypeError when it has a property \<^verbatim>\<open>toString\<close> of its own.
\<close>

definition typeError :: jsval where
  "typeError = JObj [(''name'', JStr ''TypeError'')]"

definition ToNumber_plain :: "jsval \<Rightarrow> jsval + jsnum" where
  "ToNumber_plain v =
     (case v of
        JObj ps \<Rightarrow> (if map_of ps ''toString'' = None then Inr NaN else Inl typeError)
      | _ \<Rightarrow> Inr (Number_plain v))"

text \<open>The argument \<^verbatim>\<open>other: number | SafeNumber\<close> of the arithmetic methods.\<close>

definition otherVal :: "jsnum + SafeNumber \<Rightarrow> jsnum" where
  "otherVal other = (case other of Inl n \<Rightarrow> n | Inr s \<Rightarrow> sn_value s)"

definition SafeNumber_add :: "SafeNumber \<Rightarrow> jsnum + SafeNumber \<Rightarrow> SafeNumber" where
  "SafeNumber_add this other = SafeNumberImpl_num (js_add (sn_value this) (otherVal other)) (Fin 0)"

definition SafeNumber_subtract :: "SafeNumber \<Rightarrow> jsnum + SafeNumber \<Rightarrow> SafeNumber" where
  "SafeNumber_subtract this other =
     SafeNumberImpl_num (js_sub (sn_value this) (otherVal other)) (Fin 0)"

definition SafeNumber_multiply :: "SafeNumber \<Rightarrow> jsnum + SafeNumber \<Rightarrow> SafeNumber" where
  "SafeNumber_multiply this other =
     SafeNumberImpl_num (js_mul (sn_value this) (otherVal other)) (Fin 0)"

definition SafeNumber_divide :: "SafeNumber \<Rightarrow> jsnum + SafeNumber \<Rightarrow> SafeNumber" where
  "SafeNumber_divide this other =
     (if otherVal other = Fin 0 then SafeNumberImpl_num (Fin 0) (Fin 0)
      else SafeNumberImpl_num (js_div (sn_value this) (otherVal other)) (Fin 0))"

definition SafeNumber_clamp :: "SafeNumber \<Rightarrow> jsnum \<Rightarrow> jsnum \<Rightarrow> SafeNumber" where
  "SafeNumber_clamp this lo hi =
     SafeNumberImpl_num (Math_max lo (Math_min hi (sn_value this))) (Fin 0)"

section \<open>SafeArray\<close>

record SafeArray =
  sa_data :: "jsval list"
  sa_length :: nat

text \<open>The filter the constructor applies when no validator is given.\<close>

definition defaultValidator :: "jsval \<Rightarrow> bool" where
  "defaultValidator item = (item \<noteq> JNull \<and> item \<noteq> JUndefined \<and> \<not> Number_isNaN item)"

definition SafeArrayImpl :: "jsval \<Rightarrow> (jsval \<Rightarrow> bool) option \<Rightarrow> SafeArray" where
  "SafeArrayImpl input validator =
     (case input of
        JArr xs \<Rightarrow>
          (case validator of
             Some v \<Rightarrow> \<lparr> sa_data = filter v xs, sa_length = length (filter v xs) \<rparr>
           | None \<Rightarrow> \<lparr> sa_data = filter defaultValidator xs,
                       sa_length = length (filter defaultValidator xs) \<rparr>)
      | _ \<Rightarrow> \<lparr> sa_data = [], sa_length = 0 \<rparr>)"

definition safeArray :: "jsval \<Rightarrow> (jsval \<Rightarrow> bool) option \<Rightarrow> SafeArray" where
  "safeArray input validator = SafeArrayImpl input validator"

text \<open>
  A callback is a function to \<open>jsval + 'a\<close>: \<open>Inl e\<close> when it throws \<open>e\<close>, \<open>Inr v\<close> when it
  returns \<open>v\<close>. The callback of \<^verbatim>\<open>map\<close> is wrapped in a \<^verbatim>\<open>try\<close> whose \<^verbatim>\<open>catch\<close> returns
  \<^verbatim>\<open>null\<close>; the mapped array then goes through the constructor with no validator.
\<close>

definition mapSlot :: "(jsval \<Rightarrow> nat \<Rightarrow> jsval + jsval) \<Rightarrow> jsval \<times> nat \<Rightarrow> jsval" where
  "mapSlot fn p = (case fn (fst p) (snd p) of Inl error \<Rightarrow> JNull | Inr v \<Rightarrow> v)"

definition SafeArray_map :: "SafeArray \<Rightarrow> (jsval \<Rightarrow> nat \<Rightarrow> jsval + jsval) \<Rightarrow> SafeArray" where
  "SafeArray_map this fn =
     SafeArrayImpl (JArr (map (mapSlot fn) (zip (sa_data this) [0..<length (sa_data this)]))) None"

text \<open>\<^verbatim>\<open>reduce\<close>: a step that throws keeps the accumulator.\<close>

fun reduceFrom :: "('u \<Rightarrow> jsval \<Rightarrow> nat \<Rightarrow> jsval + 'u) \<Rightarrow> nat \<Rightarrow> 'u \<Rightarrow> jsval list \<Rightarrow> 'u" where
  "reduceFrom fn index acc [] = acc"
| "reduceFrom fn index acc (item # items) =
     reduceFrom fn (Suc index) (case fn acc item index of Inl error \<Rightarrow> acc | Inr v \<Rightarrow> v) items"

definition SafeArray_reduce :: "SafeArray \<Rightarrow> ('u \<Rightarrow> jsval \<Rightarrow> nat \<Rightarrow> jsval + 'u) \<Rightarrow> 'u \<Rightarrow> 'u" where
  "SafeArray_reduce this fn initial = reduceFrom fn 0 initial (sa_data this)"

definition SafeArray_isEmpty :: "SafeArray \<Rightarrow> bool" where
  "SafeArray_isEmpty this = (sa_length this = 0)"

definition SafeArray_toArray :: "SafeArray \<Rightarrow> jsval list" where
  "SafeArray_toArray this = sa_data this"

text \<open>
  \<^verbatim>\<open>this.data[idx]\<close>: the element when \<open>idx\<close> is a whole number within the array,
  \<^verbatim>\<open>undefined\<close> for every other number.
\<close>

definition array_read :: "jsval list \<Rightarrow> jsnum \<Rightarrow> jsval" where
  "array_read xs idx =
     (case idx of
        Fin r \<Rightarrow>
          (if real_of_int \<lfloor>r\<rfloor> = r \<and> 0 \<le> r \<and> r < real (length xs) then xs ! nat \<lfloor>r\<rfloor>
           else JUndefined)
      | _ \<Rightarrow> JUndefined)"

text \<open>\<^verbatim>\<open>a || b\<close> on values.\<close>

definition js_or :: "jsval \<Rightarrow> jsval \<Rightarrow> jsval" where
  "js_or a b = (if js_truthy a then a else b)"

definition SafeArray_at :: "SafeArray \<Rightarrow> jsnum \<Rightarrow> jsval" where
  "SafeArray_at this index =
     (let safeIndex = SafeNumberImpl_num index (Fin 0) in
      if \<not> sn_isValid safeIndex \<or> \<not> sn_isInteger safeIndex then JNull
      else
        (let idx = sn_value safeIndex in
         if js_lt idx (Fin 0) \<or> js_ge idx (Fin (real (sa_length this))) then JNull
         else js_or (array_read (sa_data this) idx) JNull))"

section \<open>ChartSafety.generateSafeTicks\<close>

text \<open>
  The arithmetic of this function is that of doubles.
  \<^verbatim>\<open>const step = (safeMax - safeMin) / (safeTickCount - 1)\<close>
\<close>

definition tickStep :: "jsnum \<Rightarrow> jsnum \<Rightarrow> jsnum \<Rightarrow> jsnum" where
  "tickStep safeMin safeMax safeTickCount =
     dbl_div (dbl_sub safeMax safeMin) (dbl_sub safeTickCount (Fin 1))"

text \<open>
  The loop \<^verbatim>\<open>for (let i = 0; i < safeTickCount; i++) ticks.push(safeMin + i * step)\<close>.
  Its bound is a number, so the loop is a partial function: \<open>None\<close> is a loop that
  does not end.
\<close>

partial_function (option) ticksLoop ::
  "jsnum \<Rightarrow> jsnum \<Rightarrow> jsnum \<Rightarrow> nat \<Rightarrow> jsnum list \<Rightarrow> jsnum list option" where
  "ticksLoop safeMin step safeTickCount i ticks =
     (if js_lt (Fin (real i)) safeTickCount
      then ticksLoop safeMin step safeTickCount (Suc i)
             (ticks @ [dbl_add safeMin (dbl_mul (Fin (real i)) step)])
      else Some ticks)"

definition generateSafeTicks :: "jsnum \<Rightarrow> jsnum \<Rightarrow> jsnum \<Rightarrow> jsnum list option" where
  "generateSafeTicks minv maxv tickCount =
     (let safeMin = sn_value (SafeNumberImpl_num minv (Fin 0));
          safeMax = sn_value (SafeNumberImpl_num maxv (Fin 0));
          safeTickCount =
            sn_value (SafeNumber_clamp (SafeNumberImpl_num tickCount (Fin 5)) (Fin 2) (Fin 20))
      in if js_le safeMax safeMin then Some [safeMin]
         else ticksLoop safeMin (tickStep safeMin safeMax safeTickCount) safeTickCount 0 [])"

section \<open>SafeVirtualScrolling.calculateVisibleItems\<close>

record VirtualScrollState =
  scrollTop :: jsnum
  containerHeight :: jsnum
  itemHeight :: jsnum
  overscan :: jsnum

record VisibleRange =
  startIndex :: jsnum
  endIndex :: jsnum
  totalHeight :: jsnum
  offsetY :: jsnum

text \<open>
  The validator handed to \<^verbatim>\<open>safeArray\<close>:
  \<^verbatim>\<open>item && typeof item.id === 'string' && typeof item.height === 'number' &&
  !isNaN(item.height) && item.height > 0\<close>.
\<close>

definition itemValidator :: "jsval \<Rightarrow> bool" where
  "itemValidator item =
     (js_truthy item \<and>
      js_typeof (js_get item ''id'') = ''string'' \<and>
      js_typeof (js_get item ''height'') = ''number'' \<and>
      (case js_get item ''height'' of
         JNum h \<Rightarrow> \<not> js_isNaN h \<and> js_gt h (Fin 0)
       | _ \<Rightarrow> False))"

text \<open>\<^verbatim>\<open>safeNumber(item.height, state.itemHeight || 50).value\<close>\<close>

definition heightOf :: "(jsval \<Rightarrow> jsnum) \<Rightarrow> VirtualScrollState \<Rightarrow> jsval \<Rightarrow> jsnum" where
  "heightOf Number state item =
     sn_value (safeNumber Number (js_get item ''height'')
       (if js_truthy (JNum (itemHeight state)) then itemHeight state else Fin 50))"

text \<open>
  The first loop, from index \<open>i\<close> with the offset accumulated so far; its value is
  \<^verbatim>\<open>startIndex\<close>, which stays \<open>0\<close> when the loop ends without a \<^verbatim>\<open>break\<close>.
\<close>

function findStartIndex ::
  "(jsval \<Rightarrow> jsnum) \<Rightarrow> VirtualScrollState \<Rightarrow> SafeArray \<Rightarrow> jsnum \<Rightarrow> jsnum \<Rightarrow> nat \<Rightarrow> jsnum \<Rightarrow> jsnum"
  where
  "findStartIndex Number state safeItems scrollTopV overscanV i currentOffset =
     (if i < sa_length safeItems then
        (if \<not> js_truthy (SafeArray_at safeItems (Fin (real i)))
         then findStartIndex Number state safeItems scrollTopV overscanV (Suc i) currentOffset
         else if js_gt (js_add currentOffset
                   (heightOf Number state (SafeArray_at safeItems (Fin (real i))))) scrollTopV
         then Math_max (Fin 0) (js_sub (Fin (real i)) overscanV)
         else findStartIndex Number state safeItems scrollTopV overscanV (Suc i)
                (js_add currentOffset
                   (heightOf Number state (SafeArray_at safeItems (Fin (real i))))))
      else Fin 0)"
  by pat_completeness auto
termination
  by (relation "measure (\<lambda>(Number, state, safeItems, scrollTopV, overscanV, i, currentOffset).
        sa_length safeItems - i)") auto

declare findStartIndex.simps [simp del]

text \<open>
  The second loop, \<^verbatim>\<open>for (let i = 0; i < startIndex; i++)\<close>, adds up the heights
  before the start index; its bound is a number.
\<close>

partial_function (option) offsetLoop ::
  "(jsval \<Rightarrow> jsnum) \<Rightarrow> VirtualScrollState \<Rightarrow> SafeArray \<Rightarrow> jsnum \<Rightarrow> nat \<Rightarrow> jsnum \<Rightarrow> jsnum option"
  where
  "offsetLoop Number state safeItems startIndexV i currentOffset =
     (if js_lt (Fin (real i)) startIndexV
      then offsetLoop Number state safeItems startIndexV (Suc i)
             (if js_truthy (SafeArray_at safeItems (Fin (real i)))
              then js_add currentOffset
                     (heightOf Number state (SafeArray_at safeItems (Fin (real i))))
              else currentOffset)
      else Some currentOffset)"

text \<open>
  The third loop, \<^verbatim>\<open>for (let i = startIndex; i < safeItems.length; i++)\<close>; its counter
  starts at a number. Its value is \<^verbatim>\<open>endIndex\<close>, which stays \<open>0\<close> without a \<^verbatim>\<open>break\<close>.
\<close>

partial_function (option) findEndIndex ::
  "(jsval \<Rightarrow> jsnum) \<Rightarrow> VirtualScrollState \<Rightarrow> SafeArray \<Rightarrow> jsnum \<Rightarrow> jsnum \<Rightarrow> jsnum \<Rightarrow> jsnum \<Rightarrow> jsnum option"
  where
  "findEndIndex Number state safeItems containerHeightV overscanV i visibleHeight =
     (if js_lt i (Fin (real (sa_length safeItems))) then
        (if \<not> js_truthy (SafeArray_at safeItems i)
         then findEndIndex Number state safeItems containerHeightV overscanV
                (js_add i (Fin 1)) visibleHeight
         else if js_gt (js_add visibleHeight (heightOf Number state (SafeArray_at safeItems i)))
                   containerHeightV
         then Some (Math_min (js_sub (Fin (real (sa_length safeItems))) (Fin 1))
                      (js_add i overscanV))
         else findEndIndex Number state safeItems containerHeightV overscanV
                (js_add i (Fin 1))
                (js_add visibleHeight (heightOf Number state (SafeArray_at safeItems i))))
      else Some (Fin 0))"

text \<open>The callback of the final \<^verbatim>\<open>reduce\<close>; it does not throw.\<close>

definition totalStep ::
  "(jsval \<Rightarrow> jsnum) \<Rightarrow> VirtualScrollState \<Rightarrow> jsnum \<Rightarrow> jsval \<Rightarrow> nat \<Rightarrow> jsval + jsnum" where
  "totalStep Number state acc item index = Inr (js_add acc (heightOf Number state item))"

text \<open>
  The function itself. Its body runs inside \<^verbatim>\<open>SafeMath.calculate\<close>, which hands the
  body's result back when the body neither throws nor returns \<^verbatim>\<open>null\<close>; with a state
  object of the declared type it does neither. \<open>None\<close> is a call that does not return.
\<close>

definition calculateVisibleItems ::
  "(jsval \<Rightarrow> jsnum) \<Rightarrow> jsval \<Rightarrow> VirtualScrollState \<Rightarrow> VisibleRange option" where
  "calculateVisibleItems Number items state =
     (let safeItems = safeArray items (Some itemValidator) in
      if SafeArray_isEmpty safeItems
      then Some \<lparr> startIndex = Fin 0, endIndex = Fin 0, totalHeight = Fin 0, offsetY = Fin 0 \<rparr>
      else
        (let scrollTopV =
               sn_value (SafeNumber_clamp (SafeNumberImpl_num (scrollTop state) (Fin 0))
                 (Fin 0) PosInf);
             containerHeightV =
               sn_value (SafeNumber_clamp (SafeNumberImpl_num (containerHeight state) (Fin 400))
                 (Fin 100) (Fin 2000));
             overscanV =
               sn_value (SafeNumber_clamp (SafeNumberImpl_num (overscan state) (Fin 5))
                 (Fin 0) (Fin 20));
             startIndexV = findStartIndex Number state safeItems scrollTopV overscanV 0 (Fin 0)
         in
           (case offsetLoop Number state safeItems startIndexV 0 (Fin 0) of
              None \<Rightarrow> None
            | Some currentOffset \<Rightarrow>
                (case findEndIndex Number state safeItems containerHeightV overscanV
                        startIndexV (Fin 0) of
                   None \<Rightarrow> None
                 | Some endIndexV \<Rightarrow>
                     Some \<lparr> startIndex = startIndexV,
                            endIndex = Math_max endIndexV startIndexV,
                            totalHeight =
                              SafeArray_reduce safeItems (totalStep Number state) (Fin 0),
                            offsetY = currentOffset \<rparr>))))"

section \<open>IntelligentCache\<close>

record CacheEntry =
  data :: jsval
  timestamp :: int
  accessCount :: nat
  entrySize :: nat
  dependencies :: "jsval list"

text \<open>
  The \<^verbatim>\<open>Map\<close> is a list of key and entry in insertion order: \<^verbatim>\<open>set\<close> replaces the entry
  of a key that is present where it stands and appends a new key, \<^verbatim>\<open>delete\<close> removes
  the key. \<^verbatim>\<open>currentMemory\<close> is a number that the code only adds sizes to and
  subtracts sizes from, an integer that may become negative.
\<close>

record IntelligentCache =
  cache :: "(string \<times> CacheEntry) list"
  maxSize :: jsnum
  maxMemory :: jsnum
  currentMemory :: int

definition IntelligentCache_new :: "jsnum \<Rightarrow> jsnum \<Rightarrow> IntelligentCache" where
  "IntelligentCache_new maxSizeArg maxMemoryMB =
     \<lparr> cache = [],
       maxSize =
         sn_value (SafeNumber_clamp (SafeNumberImpl_num maxSizeArg (Fin 1000))
           (Fin 100) (Fin 10000)),
       maxMemory =
         js_mul (js_mul
           (sn_value (SafeNumber_clamp (SafeNumberImpl_num maxMemoryMB (Fin 100))
              (Fin 10) (Fin 1000)))
           (Fin 1024)) (Fin 1024),
       currentMemory = 0 \<rparr>"

text \<open>
  \<^verbatim>\<open>estimateSize\<close>: \<^verbatim>\<open>JSON.stringify\<close> and \<^verbatim>\<open>Blob\<close> belong to the runtime. The parameter
  \<open>blobSize\<close> gives the size of the blob of the value's JSON text, and \<open>None\<close> when
  one of the two calls throws; the \<^verbatim>\<open>catch\<close> branch is the code's own.
\<close>

definition estimateSize :: "(jsval \<Rightarrow> nat option) \<Rightarrow> jsval \<Rightarrow> nat" where
  "estimateSize blobSize obj =
     (case blobSize obj of
        Some n \<Rightarrow> n
      | None \<Rightarrow> (case obj of JStr s \<Rightarrow> length s * 2 | _ \<Rightarrow> 1024))"

text \<open>A runtime with no \<^verbatim>\<open>Blob\<close>: the constructor call throws for every value.\<close>

definition blobUnavailable :: "jsval \<Rightarrow> nat option" where
  "blobUnavailable obj = None"

text \<open>
  The scan of \<^verbatim>\<open>evictLeastUsed\<close> over the entries, carrying \<^verbatim>\<open>leastUsedKey\<close> and
  \<^verbatim>\<open>leastUsedScore\<close>. \<open>now\<close> is the value of \<^verbatim>\<open>Date.now()\<close>, taken as constant during
  one call of a public method.
\<close>

fun leastUsedScan ::
  "int \<Rightarrow> (string \<times> CacheEntry) list \<Rightarrow> string option \<times> jsnum \<Rightarrow> string option \<times> jsnum" where
  "leastUsedScan now [] best = best"
| "leastUsedScan now ((key, entry) # rest) best =
     leastUsedScan now rest
       (if js_lt (js_div (Fin (real_of_int (now - timestamp entry)))
                    (Fin (real (max (accessCount entry) 1)))) (snd best)
        then (Some key,
              js_div (Fin (real_of_int (now - timestamp entry)))
                (Fin (real (max (accessCount entry) 1))))
        else best)"

text \<open>
  \<^verbatim>\<open>if (key) { ... }\<close> at the end of both eviction methods: the body runs when the
  key is neither \<^verbatim>\<open>null\<close> nor the empty string.
\<close>

definition evictKey :: "string option \<Rightarrow> IntelligentCache \<Rightarrow> IntelligentCache" where
  "evictKey chosen c =
     (case chosen of
        None \<Rightarrow> c
      | Some key \<Rightarrow>
          (if key = [] then c
           else (case map_of (cache c) key of
                   None \<Rightarrow> c
                 | Some entry \<Rightarrow>
                     c \<lparr> currentMemory := currentMemory c - int (entrySize entry),
                         cache := AList.delete key (cache c) \<rparr>)))"

definition evictLeastUsed :: "int \<Rightarrow> IntelligentCache \<Rightarrow> IntelligentCache" where
  "evictLeastUsed now c = evictKey (fst (leastUsedScan now (cache c) (None, PosInf))) c"

fun largestScan ::
  "(string \<times> CacheEntry) list \<Rightarrow> string option \<times> nat \<Rightarrow> string option \<times> nat" where
  "largestScan [] best = best"
| "largestScan ((key, entry) # rest) best =
     largestScan rest (if entrySize entry > snd best then (Some key, entrySize entry) else best)"

definition evictLargest :: "IntelligentCache \<Rightarrow> IntelligentCache" where
  "evictLargest c = evictKey (fst (largestScan (cache c) (None, 0))) c"

text \<open>
  The two loops of \<^verbatim>\<open>ensureSpace\<close>. Neither has a bound of its own, so each is a
  partial function: \<open>None\<close> is a loop that does not end.
\<close>

partial_function (option) sizeLoop :: "int \<Rightarrow> IntelligentCache \<Rightarrow> IntelligentCache option" where
  "sizeLoop now c =
     (if js_ge (Fin (real (length (cache c)))) (maxSize c)
      then sizeLoop now (evictLeastUsed now c)
      else Some c)"

partial_function (option) memoryLoop :: "nat \<Rightarrow> IntelligentCache \<Rightarrow> IntelligentCache option" where
  "memoryLoop requiredSize c =
     (if js_gt (Fin (real_of_int (currentMemory c + int requiredSize))) (maxMemory c)
      then memoryLoop requiredSize (evictLargest c)
      else Some c)"

definition ensureSpace :: "int \<Rightarrow> nat \<Rightarrow> IntelligentCache \<Rightarrow> IntelligentCache option" where
  "ensureSpace now requiredSize c =
     (case sizeLoop now c of None \<Rightarrow> None | Some c' \<Rightarrow> memoryLoop requiredSize c')"

definition IntelligentCache_set ::
  "(jsval \<Rightarrow> nat option) \<Rightarrow> int \<Rightarrow> string \<Rightarrow> jsval \<Rightarrow> jsval \<Rightarrow> IntelligentCache
     \<Rightarrow> IntelligentCache option" where
  "IntelligentCache_set blobSize now key value deps c =
     (case ensureSpace now (estimateSize blobSize value)
             (case map_of (cache c) key of
                None \<Rightarrow> c
              | Some existing \<Rightarrow> c \<lparr> currentMemory := currentMemory c - int (entrySize existing) \<rparr>)
      of
        None \<Rightarrow> None
      | Some c' \<Rightarrow>
          Some (c' \<lparr> cache :=
                       AList.update key
                         \<lparr> data = value, timestamp = now, accessCount = 1,
                           entrySize = estimateSize blobSize value,
                           dependencies = SafeArray_toArray (safeArray deps None) \<rparr>
                         (cache c'),
                     currentMemory := currentMemory c' + int (estimateSize blobSize value) \<rparr>))"

definition IntelligentCache_get :: "int \<Rightarrow> string \<Rightarrow> IntelligentCache \<Rightarrow> jsval \<times> IntelligentCache" where
  "IntelligentCache_get now key c =
     (case map_of (cache c) key of
        None \<Rightarrow> (JNull, c)
      | Some entry \<Rightarrow>
          (data entry,
           c \<lparr> cache :=
                 AList.update key
                   (entry \<lparr> accessCount := Suc (accessCount entry), timestamp := now \<rparr>)
                   (cache c) \<rparr>))"

text \<open>
  \<^verbatim>\<open>invalidateByDependency\<close> walks the entries and deletes those whose dependencies
  include the tag; the result is the number deleted and the cache.
\<close>

fun invalidateScan ::
  "string \<Rightarrow> (string \<times> CacheEntry) list \<Rightarrow> nat \<times> IntelligentCache \<Rightarrow> nat \<times> IntelligentCache" where
  "invalidateScan dependency [] st = st"
| "invalidateScan dependency ((key, entry) # rest) st =
     invalidateScan dependency rest
       (if JStr dependency \<in> set (dependencies entry)
        then (Suc (fst st),
              (snd st) \<lparr> currentMemory := currentMemory (snd st) - int (entrySize entry),
                         cache := AList.delete key (cache (snd st)) \<rparr>)
        else st)"

definition invalidateByDependency :: "string \<Rightarrow> IntelligentCache \<Rightarrow> nat \<times> IntelligentCache" where
  "invalidateByDependency dependency c = invalidateScan dependency (cache c) (0, c)"

definition IntelligentCache_clear :: "IntelligentCache \<Rightarrow> IntelligentCache" where
  "IntelligentCache_clear c = c \<lparr> cache := [], currentMemory := 0 \<rparr>"




section \<open>Statements the theorems compare the code with\<close>

text \<open>
  What the specification says \<^verbatim>\<open>map\<close> keeps: the results of the calls that do not
  throw, in their order.
\<close>

definition claimed_map :: "(jsval \<Rightarrow> nat \<Rightarrow> jsval + jsval) \<Rightarrow> jsval list \<Rightarrow> jsval list" where
  "claimed_map fn xs =
     List.map_filter (\<lambda>p. case fn (fst p) (snd p) of Inl e \<Rightarrow> None | Inr v \<Rightarrow> Some v)
       (zip xs [0..<length xs])"

text \<open>
  What a slot of \<^verbatim>\<open>map\<close> contributes: nothing when the callback throws or returns
  \<^verbatim>\<open>null\<close>, \<^verbatim>\<open>undefined\<close> or NaN, and the returned value otherwise.
\<close>

definition keptSlot :: "(jsval \<Rightarrow> nat \<Rightarrow> jsval + jsval) \<Rightarrow> jsval \<times> nat \<Rightarrow> jsval option" where
  "keptSlot fn p =
     (case fn (fst p) (snd p) of
        Inl e \<Rightarrow> None
      | Inr v \<Rightarrow> if v = JNull \<or> v = JUndefined \<or> Number_isNaN v then None else Some v)"

text \<open>A callback that never throws: \<^verbatim>\<open>(item, index) => index === 0 ? null : item\<close>.\<close>

definition nullAtFirst :: "jsval \<Rightarrow> nat \<Rightarrow> jsval + jsval" where
  "nullAtFirst item index = (if index = 0 then Inr JNull else Inr item)"


text \<open>The sum of the sizes of the entries the cache holds.\<close>

definition entriesBytes :: "IntelligentCache \<Rightarrow> int" where
  "entriesBytes c = sum_list (map (\<lambda>p. int (entrySize (snd p))) (cache c))"

text \<open>
  The invariant of the specification: the number of entries is at most \<^verbatim>\<open>maxSize\<close>,
  \<^verbatim>\<open>currentMemory\<close> is at most \<^verbatim>\<open>maxMemory\<close>, and \<^verbatim>\<open>currentMemory\<close> is the sum of the
  entries' sizes.
\<close>

definition cacheInvariant :: "IntelligentCache \<Rightarrow> bool" where
  "cacheInvariant c =
     (js_le (Fin (real (length (cache c)))) (maxSize c) \<and>
      js_le (Fin (real_of_int (currentMemory c))) (maxMemory c) \<and>
      currentMemory c = entriesBytes c)"

text \<open>
  A cache whose keys are distinct and whose \<^verbatim>\<open>currentMemory\<close> is the sum of its
  entries' sizes.
\<close>

definition consistent :: "IntelligentCache \<Rightarrow> bool" where
  "consistent c = (distinct (map fst (cache c)) \<and> currentMemory c = entriesBytes c)"

text \<open>A consistent cache whose byte budget is below the required size.\<close>

definition oversized :: "nat \<Rightarrow> IntelligentCache \<Rightarrow> bool" where
  "oversized req c = (consistent c \<and> (\<exists>m. maxMemory c = Fin m \<and> m < real req))"

text \<open>
  In a runtime without \<^verbatim>\<open>Blob\<close>, where a string of \<open>n\<close> characters is estimated at \<open>2n\<close>
  bytes: \<^verbatim>\<open>c = new IntelligentCache(100, 10)\<close>, then \<^verbatim>\<open>c.set('k', 'x'.repeat(2097152))\<close>
  and \<^verbatim>\<open>c.set('j', 'x'.repeat(1572864))\<close>; and after them
  \<^verbatim>\<open>c.set('k', 'x'.repeat(4194304))\<close>.
\<close>

definition twoEntries :: "IntelligentCache option" where
  "twoEntries =
     Option.bind
       (IntelligentCache_set blobUnavailable 0 ''k'' (JStr (replicate 2097152 CHR ''x''))
          (JArr []) (IntelligentCache_new (Fin 100) (Fin 10)))
       (IntelligentCache_set blobUnavailable 1 ''j'' (JStr (replicate 1572864 CHR ''x''))
          (JArr []))"

definition overwritten :: "IntelligentCache option" where
  "overwritten =
     Option.bind twoEntries
       (IntelligentCache_set blobUnavailable 2 ''k'' (JStr (replicate 4194304 CHR ''x''))
          (JArr []))"

section \<open>Double arithmetic: whole numbers\<close>

text \<open>
  A whole number of magnitude at most \<open>2^53\<close> is a double: rounding leaves it as it is.
\<close>

lemma ilog2_bounds: "0 < n \<Longrightarrow> 2 ^ ilog2 n \<le> n \<and> n < 2 ^ Suc (ilog2 n)"
proof (induction n rule: ilog2.induct)
  case (1 n)
  show ?case
  proof (cases "n < 2")
    case True
    with 1(2) have "n = 1" by simp
    then show ?thesis by (simp add: ilog2.simps)
  next
    case False
    then have pos: "0 < n div 2" by simp
    from 1(1) [OF False pos] have ih: "2 ^ ilog2 (n div 2) \<le> n div 2" "n div 2 < 2 ^ Suc (ilog2 (n div 2))"
      by simp_all
    have e: "ilog2 n = Suc (ilog2 (n div 2))" using False by (subst ilog2.simps) simp
    have "2 * 2 ^ ilog2 (n div 2) \<le> n" using ih(1) by linarith
    moreover have "n < 2 * 2 ^ Suc (ilog2 (n div 2))" using ih(2) by linarith
    ultimately show ?thesis by (simp add: e)
  qed
qed

lemma roundHalfEven_of_int: "roundHalfEven (real_of_int z) = z"
  by (simp add: roundHalfEven_def)

lemma round64_whole:
  assumes w: "real_of_int k = x" and small: "\<bar>x\<bar> \<le> 2 ^ 53"
  shows "round64 x = Fin x"
proof (cases "k = 0")
  case True
  with w show ?thesis by (simp add: round64_def)
next
  case False
  define a where "a = \<bar>x\<bar>"
  define n where "n = nat \<bar>k\<bar>"
  define e where "e = ilog2 n"
  have a: "a = real n" using w by (simp add: a_def n_def)
  have npos: "0 < n" using False by (simp add: n_def)
  have a1: "1 \<le> a" using npos a by simp
  have fl: "nat \<lfloor>a\<rfloor> = n" by (simp add: a)
  have be: "binaryExponent a = int e" using a1 by (simp add: binaryExponent_def fl e_def)
  from ilog2_bounds [OF npos] have lo: "2 ^ e \<le> n" and hi: "n < 2 ^ Suc e" by (simp_all add: e_def)
  have n53: "n \<le> 2 ^ 53" using small a a_def by (metis of_nat_le_iff of_nat_numeral of_nat_power)
  have e53: "e \<le> 53"
  proof (rule ccontr)
    assume "\<not> e \<le> 53"
    then have "54 \<le> e" by simp
    then have "(2::nat) ^ 54 \<le> 2 ^ e" by (intro power_increasing) simp_all
    with lo n53 show False by simp
  qed
  have rm: "roundMagnitude a = a"
  proof (cases "e \<le> 52")
    case True
    have q: "max (int e) (- 1022) - 52 = - int (52 - e)" using True by simp
    have p: "pow2 (- int (52 - e)) = 1 / 2 ^ (52 - e)"
      by (cases "52 - e = 0") (simp_all add: pow2_def)
    have "a / (1 / 2 ^ (52 - e)) = real_of_int (int (n * 2 ^ (52 - e)))" by (simp add: a)
    then have r: "roundHalfEven (a / (1 / 2 ^ (52 - e))) = int (n * 2 ^ (52 - e))"
      by (simp only: roundHalfEven_of_int)
    have "roundMagnitude a =
            real_of_int (roundHalfEven (a / pow2 (- int (52 - e)))) * pow2 (- int (52 - e))"
      by (simp only: roundMagnitude_def be q)
    also have "\<dots> = real_of_int (int (n * 2 ^ (52 - e))) * (1 / 2 ^ (52 - e))"
      by (simp only: p r)
    also have "\<dots> = a" by (simp add: a)
    finally show ?thesis .
  next
    case False
    with e53 have e: "e = 53" by simp
    with lo n53 have n: "n = 2 ^ 53" by simp
    have q: "max (int e) (- 1022) - 52 = 1" using e by simp
    have p: "pow2 1 = 2" by (simp add: pow2_def)
    have "a / 2 = real_of_int (2 ^ 52)" by (simp add: a n)
    then have r: "roundHalfEven (a / 2) = 2 ^ 52" by (simp only: roundHalfEven_of_int)
    have "roundMagnitude a = real_of_int (roundHalfEven (a / pow2 1)) * pow2 1"
      by (simp only: roundMagnitude_def be q)
    also have "\<dots> = real_of_int (2 ^ 52) * 2" by (simp only: p r)
    also have "\<dots> = a" by (simp add: a n)
    finally show ?thesis .
  qed
  have nz: "x \<noteq> 0" using False w by auto
  have "\<not> (2::real) ^ 1024 \<le> a"
  proof -
    have "(2::real) ^ 53 < 2 ^ 1024" by (intro power_strict_increasing) simp_all
    with small show ?thesis by (simp add: a_def)
  qed
  then show ?thesis using nz rm by (auto simp: round64_def a_def)
qed


lemma dbl_add_Fin: "dbl_add (Fin a) (Fin b) = round64 (a + b)"
  by (simp add: dbl_add_def)

lemma dbl_sub_Fin: "dbl_sub (Fin a) (Fin b) = round64 (a - b)"
  by (simp add: dbl_sub_def dbl_add_def)

lemma dbl_mul_Fin: "dbl_mul (Fin a) (Fin b) = round64 (a * b)"
  by (simp add: dbl_mul_def)

lemma dbl_div_Fin: "b \<noteq> 0 \<Longrightarrow> dbl_div (Fin a) (Fin b) = round64 (a / b)"
  by (simp add: dbl_div_def)

lemmas run_round = round64_def roundMagnitude_def roundHalfEven_def binaryExponent_def pow2_def
  ilog2.simps

section \<open>SafeNumber: construction and division\<close>

lemma SafeNumberImpl_num_value_Fin: "\<exists>r. sn_value (SafeNumberImpl_num x (Fin d)) = Fin r"
  by (cases x) (simp_all add: SafeNumberImpl_num_def)

text \<open>When the conversion throws, so does the call; when it returns, the call returns.\<close>

lemma safeNumber_call_throws:
  "coerceInput_call T input = Inl e \<Longrightarrow> safeNumber_call T input fb = Inl e"
  by (simp add: safeNumber_call_def SafeNumberImpl_call_def)

lemma safeNumber_call_returns:
  "coerceInput_call T input = Inr (coerceInput N input) \<Longrightarrow>
   safeNumber_call T input fb = Inr (safeNumber N input fb)"
  by (simp add: safeNumber_call_def SafeNumberImpl_call_def safeNumber_def SafeNumberImpl_def)

lemma safeNumber_call_TypeError:
  "safeNumber_call ToNumber_plain
     (JObj [(''valueOf'', JNum (Fin 0)), (''toString'', JNum (Fin 0))]) (Fin 0) = Inl typeError"
  by (simp add: safeNumber_call_def SafeNumberImpl_call_def coerceInput_call_def
        ToNumber_plain_def)

text \<open>
  Claim C3, corrected. For every input on which the conversion to a number returns,
  and every fallback, the call returns a SafeNumber: when the number is finite,
  \<^verbatim>\<open>value\<close> is that number and \<^verbatim>\<open>isValid\<close> is true; otherwise \<^verbatim>\<open>value\<close> is the fallback
  and \<^verbatim>\<open>isValid\<close> is false. \<^verbatim>\<open>value\<close> is finite whenever the fallback is finite; the
  constructor does not check the fallback.
\<close>

theorem safeNumber_value:
  "coerceInput_call T input = Inr num \<Longrightarrow>
   \<exists>s. safeNumber_call T input fb = Inr s \<and>
       (js_isFinite num \<longrightarrow> sn_value s = num \<and> sn_isValid s) \<and>
       (\<not> js_isFinite num \<longrightarrow> sn_value s = fb \<and> \<not> sn_isValid s) \<and>
       (js_isFinite fb \<longrightarrow> js_isFinite (sn_value s))"
  by (cases num)
     (simp_all add: safeNumber_call_def SafeNumberImpl_call_def SafeNumberImpl_num_def)

text \<open>\<^verbatim>\<open>safeNumber('', 7)\<close> has the value 0 and \<^verbatim>\<open>safeNumber(undefined, 7)\<close> the value 7.\<close>

theorem safeNumber_value_witness:
  "safeNumber_call ToNumber_plain (JStr []) (Fin 7) =
     Inr \<lparr> sn_value = Fin 0, sn_isValid = True, sn_isFinite = True, sn_isInteger = True \<rparr> \<and>
   safeNumber_call ToNumber_plain JUndefined (Fin 7) =
     Inr \<lparr> sn_value = Fin 7, sn_isValid = False, sn_isFinite = False, sn_isInteger = False \<rparr>"
  using safeNumber_value [of ToNumber_plain "JStr []" "Fin 0" "Fin 7"]
        safeNumber_value [of ToNumber_plain JUndefined NaN "Fin 7"]
  by (simp add: safeNumber_call_def SafeNumberImpl_call_def SafeNumberImpl_num_def
        coerceInput_call_def ToNumber_plain_def)

text \<open>\<^verbatim>\<open>safeNumber(NaN, Infinity).value\<close> is \<^verbatim>\<open>Infinity\<close>, which is not finite.\<close>

theorem safeNumber_value_counterexample:
  "safeNumber_call ToNumber_plain (JNum NaN) PosInf =
     Inr \<lparr> sn_value = PosInf, sn_isValid = False, sn_isFinite = False, sn_isInteger = False \<rparr> \<and>
   \<not> js_isFinite PosInf"
  by (simp add: safeNumber_call_def SafeNumberImpl_call_def SafeNumberImpl_num_def
        coerceInput_call_def)

text \<open>
  Claim C8. For any number \<open>n\<close>, \<^verbatim>\<open>safeNumber(n).divide(0).value\<close> is \<open>0\<close>, a valid
  finite number, and so it is when the divisor is a SafeNumber whose value is \<open>0\<close>
  (\<^verbatim>\<open>safeNumber(0)\<close>, or \<^verbatim>\<open>safeNumber(NaN)\<close> with its fallback \<open>0\<close>). The method has no
  path that throws.
\<close>

theorem divide_by_zero:
  "sn_value (SafeNumber_divide (safeNumber N (JNum n) (Fin 0)) (Inl (Fin 0))) = Fin 0 \<and>
   sn_isValid (SafeNumber_divide (safeNumber N (JNum n) (Fin 0)) (Inl (Fin 0))) \<and>
   sn_value (SafeNumber_divide (safeNumber N (JNum n) (Fin 0))
      (Inr (safeNumber N (JNum (Fin 0)) (Fin 0)))) = Fin 0 \<and>
   sn_value (SafeNumber_divide (safeNumber N (JNum n) (Fin 0))
      (Inr (safeNumber N (JNum NaN) (Fin 0)))) = Fin 0"
  by (simp add: SafeNumber_divide_def otherVal_def safeNumber_def SafeNumberImpl_def
        SafeNumberImpl_num_def coerceInput_def)

section \<open>SafeArray: index access and map\<close>

lemma at_in_range:
  assumes "sa_length a = length (sa_data a)" and "i < sa_length a"
  shows "SafeArray_at a (Fin (real i)) =
           (if js_truthy (sa_data a ! i) then sa_data a ! i else JNull)"
  using assms
  by (simp add: SafeArray_at_def SafeNumberImpl_num_def js_ge_def js_le_def array_read_def
        js_or_def Let_def)

lemma safeArray_length:
  "sa_length (safeArray input validator) = length (sa_data (safeArray input validator))"
  by (simp add: safeArray_def SafeArrayImpl_def split: jsval.splits option.splits)

text \<open>
  Claim C10. For an array built by \<^verbatim>\<open>safeArray\<close> and a whole index \<open>i\<close> below its
  length, \<^verbatim>\<open>at(i)\<close> is the stored element when that element is truthy and \<^verbatim>\<open>null\<close>
  when it is falsy.
\<close>

theorem at_truthy_only:
  "i < sa_length (safeArray input validator) \<Longrightarrow>
   SafeArray_at (safeArray input validator) (Fin (real i)) =
     (if js_truthy (sa_data (safeArray input validator) ! i)
      then sa_data (safeArray input validator) ! i else JNull)"
  by (rule at_in_range [OF safeArray_length])

text \<open>
  On \<^verbatim>\<open>safeArray([5, 0, '', false])\<close>, which keeps all four elements: \<^verbatim>\<open>at(0)\<close> is
  \<open>5\<close>, and \<^verbatim>\<open>at(1)\<close>, \<^verbatim>\<open>at(2)\<close> and \<^verbatim>\<open>at(3)\<close> are \<^verbatim>\<open>null\<close>.
\<close>

theorem at_truthy_only_witness:
  "sa_data (safeArray (JArr [JNum (Fin 5), JNum (Fin 0), JStr [], JBool False]) None) =
     [JNum (Fin 5), JNum (Fin 0), JStr [], JBool False] \<and>
   SafeArray_at (safeArray (JArr [JNum (Fin 5), JNum (Fin 0), JStr [], JBool False]) None)
     (Fin 0) = JNum (Fin 5) \<and>
   SafeArray_at (safeArray (JArr [JNum (Fin 5), JNum (Fin 0), JStr [], JBool False]) None)
     (Fin 1) = JNull \<and>
   SafeArray_at (safeArray (JArr [JNum (Fin 5), JNum (Fin 0), JStr [], JBool False]) None)
     (Fin 2) = JNull \<and>
   SafeArray_at (safeArray (JArr [JNum (Fin 5), JNum (Fin 0), JStr [], JBool False]) None)
     (Fin 3) = JNull"
  using at_truthy_only [of 0 "JArr [JNum (Fin 5), JNum (Fin 0), JStr [], JBool False]" None]
        at_truthy_only [of 1 "JArr [JNum (Fin 5), JNum (Fin 0), JStr [], JBool False]" None]
        at_truthy_only [of 2 "JArr [JNum (Fin 5), JNum (Fin 0), JStr [], JBool False]" None]
        at_truthy_only [of 3 "JArr [JNum (Fin 5), JNum (Fin 0), JStr [], JBool False]" None]
  by (simp add: safeArray_def SafeArrayImpl_def defaultValidator_def)

lemma filter_mapSlot:
  "filter defaultValidator (map (mapSlot fn) ps) = List.map_filter (keptSlot fn) ps"
  by (induction ps)
     (auto simp: mapSlot_def keptSlot_def defaultValidator_def map_filter_simps
           split: sum.splits)

text \<open>
  Claim C7, corrected. For every SafeArray and callback, \<^verbatim>\<open>map\<close> drops exactly the
  slots on which the callback throws or returns \<^verbatim>\<open>null\<close>, \<^verbatim>\<open>undefined\<close> or NaN; the
  values returned on the other slots are the result, in their original order.
\<close>

theorem map_drops:
  "sa_data (SafeArray_map a fn) =
     List.map_filter (keptSlot fn) (zip (sa_data a) [0..<length (sa_data a)]) \<and>
   sa_length (SafeArray_map a fn) = length (sa_data (SafeArray_map a fn))"
  by (simp add: SafeArray_map_def SafeArrayImpl_def filter_mapSlot)

text \<open>
  On \<^verbatim>\<open>safeArray([1, 2])\<close> the callback \<open>nullAtFirst\<close> throws nowhere, and the result of
  \<^verbatim>\<open>map\<close> has lost the first slot.
\<close>

theorem map_drops_counterexample:
  "sa_data (SafeArray_map (safeArray (JArr [JNum (Fin 1), JNum (Fin 2)]) None) nullAtFirst) =
     [JNum (Fin 2)] \<and>
   claimed_map nullAtFirst [JNum (Fin 1), JNum (Fin 2)] = [JNull, JNum (Fin 2)]"
  by (simp add: SafeArray_map_def safeArray_def SafeArrayImpl_def defaultValidator_def
        mapSlot_def nullAtFirst_def claimed_map_def map_filter_simps upt_rec)

section \<open>IntelligentCache: statistics\<close>

lemma new_cache:
  "IntelligentCache_new (Fin 100) (Fin 10) =
     \<lparr> cache = [], maxSize = Fin 100, maxMemory = Fin 10485760, currentMemory = 0 \<rparr>"
  by (simp add: IntelligentCache_new_def SafeNumber_clamp_def SafeNumberImpl_num_def
        Math_max_def Math_min_def)



section \<open>ChartSafety: axis ticks\<close>

lemma ticksLoop_Fin:
  "ticksLoop m st (Fin c) i ticks =
     Some (ticks @ map (\<lambda>k. dbl_add m (dbl_mul (Fin (real k)) st)) [i..<nat \<lceil>c\<rceil>])"
proof (induction "nat \<lceil>c\<rceil> - i" arbitrary: i ticks)
  case 0
  then have "\<not> real i < c" by linarith
  moreover from 0 have "[i..<nat \<lceil>c\<rceil>] = []" by simp
  ultimately show ?case by (subst ticksLoop.simps) simp
next
  case (Suc d)
  then have lt: "i < nat \<lceil>c\<rceil>" by linarith
  then have "real i < c" by linarith
  moreover have "[i..<nat \<lceil>c\<rceil>] = i # [Suc i..<nat \<lceil>c\<rceil>]"
    using lt by (simp add: upt_conv_Cons)
  moreover have "d = nat \<lceil>c\<rceil> - Suc i" using Suc by linarith
  ultimately show ?case using Suc.hyps(1) [of "Suc i"]
    by (subst ticksLoop.simps) simp
qed

lemma value_num_cases:
  "sn_value (SafeNumberImpl_num x (Fin d)) = (case x of Fin r \<Rightarrow> Fin r | _ \<Rightarrow> Fin d)"
  by (cases x) (simp_all add: SafeNumberImpl_num_def)

lemma clamp_num_Fin:
  "sn_value (SafeNumber_clamp (SafeNumberImpl_num x (Fin d)) (Fin lo) (Fin hi)) =
     Fin (max lo (min hi (case x of Fin r \<Rightarrow> r | _ \<Rightarrow> d)))"
  by (cases x)
     (simp_all add: SafeNumber_clamp_def SafeNumberImpl_num_def Math_max_def Math_min_def
        max_def min_def)

lemma ticks_run:
  assumes a: "sn_value (SafeNumberImpl_num minv (Fin 0)) = Fin a"
      and b: "sn_value (SafeNumberImpl_num maxv (Fin 0)) = Fin b"
      and c: "sn_value (SafeNumber_clamp (SafeNumberImpl_num tickCount (Fin 5))
                (Fin 2) (Fin 20)) = Fin c"
  shows "generateSafeTicks minv maxv tickCount =
          (if b \<le> a then Some [Fin a]
           else Some (map (\<lambda>i. dbl_add (Fin a)
                                 (dbl_mul (Fin (real i)) (tickStep (Fin a) (Fin b) (Fin c))))
                        [0..<nat \<lceil>c\<rceil>]))"
  by (simp add: generateSafeTicks_def a b c js_le_def ticksLoop_Fin Let_def)

lemma ticks_exact:
  assumes ab: "a < b"
      and wa: "real_of_int \<lfloor>a\<rfloor> = a" and wb: "real_of_int \<lfloor>b\<rfloor> = b"
      and sa: "\<bar>a\<bar> \<le> 2 ^ 52" and sb: "\<bar>b\<bar> \<le> 2 ^ 52"
      and c1: "real n = c" and n2: "2 \<le> n" and n20: "n \<le> 20"
      and wq: "real_of_int \<lfloor>(b - a) / (c - 1)\<rfloor> = (b - a) / (c - 1)"
      and i: "i < n"
  shows "dbl_add (Fin a) (dbl_mul (Fin (real i)) (tickStep (Fin a) (Fin b) (Fin c))) =
           Fin (a + real i * ((b - a) / (c - 1)))"
proof -
  define q where "q = (b - a) / (c - 1)"
  have cpos: "1 \<le> c - 1" using c1 n2 by linarith
  have qpos: "0 < q" using ab cpos by (simp add: q_def)
  have bq: "b - a = (c - 1) * q" using cpos by (simp add: q_def)
  have ile: "real i \<le> c - 1" using i c1 by linarith
  have iq: "real i * q \<le> b - a"
  proof -
    have "real i * q \<le> (c - 1) * q" using ile qpos by (intro mult_right_mono) simp_all
    then show ?thesis using bq by simp
  qed
  have iq0: "0 \<le> real i * q" using qpos by simp
  have qle: "q \<le> b - a"
  proof -
    have "1 * q \<le> (c - 1) * q" using cpos qpos by (intro mult_right_mono) simp_all
    then show ?thesis using bq by simp
  qed
  have d53: "\<bar>b - a\<bar> \<le> 2 ^ 53" using sa sb by (simp add: abs_le_iff; linarith)
  have "real_of_int (\<lfloor>b\<rfloor> - \<lfloor>a\<rfloor>) = b - a" by (simp only: of_int_diff wa wb)
  then have s1: "dbl_sub (Fin b) (Fin a) = Fin (b - a)"
    using d53 by (simp only: dbl_sub_Fin round64_whole)
  have "\<bar>c - 1\<bar> \<le> 2 ^ 53" using c1 n2 n20 by (simp add: abs_le_iff; linarith)
  moreover have "real_of_int (int n - 1) = c - 1" using c1 by simp
  ultimately have s2: "dbl_sub (Fin c) (Fin 1) = Fin (c - 1)"
    by (simp only: dbl_sub_Fin round64_whole)
  have q53: "\<bar>q\<bar> \<le> 2 ^ 53" using qpos qle d53 by (simp add: abs_le_iff; linarith)
  have wq': "real_of_int \<lfloor>q\<rfloor> = q" unfolding q_def by (rule wq)
  have nz: "c - 1 \<noteq> 0" using cpos by simp
  have st: "tickStep (Fin a) (Fin b) (Fin c) = Fin q"
    unfolding tickStep_def s1 s2 dbl_div_Fin [OF nz] q_def [symmetric]
    using wq' q53 by (rule round64_whole)
  have "real_of_int (int i * \<lfloor>q\<rfloor>) = real i * q"
    by (simp only: of_int_mult of_int_of_nat_eq wq')
  moreover have "\<bar>real i * q\<bar> \<le> 2 ^ 53" using iq iq0 d53 by (simp add: abs_le_iff; linarith)
  ultimately have m: "dbl_mul (Fin (real i)) (Fin q) = Fin (real i * q)"
    by (simp only: dbl_mul_Fin round64_whole)
  have "real_of_int (\<lfloor>a\<rfloor> + int i * \<lfloor>q\<rfloor>) = a + real i * q"
    by (simp only: of_int_add of_int_mult of_int_of_nat_eq wa wq')
  moreover have "\<bar>a + real i * q\<bar> \<le> 2 ^ 53"
    using iq iq0 sa sb by (simp add: abs_le_iff; linarith)
  ultimately have ad: "dbl_add (Fin a) (Fin (real i * q)) = Fin (a + real i * q)"
    by (simp only: dbl_add_Fin round64_whole)
  have "dbl_add (Fin a) (dbl_mul (Fin (real i)) (tickStep (Fin a) (Fin b) (Fin c))) =
          dbl_add (Fin a) (dbl_mul (Fin (real i)) (Fin q))"
    by (simp only: st)
  also have "\<dots> = dbl_add (Fin a) (Fin (real i * q))" by (simp only: m)
  also have "\<dots> = Fin (a + real i * q)" by (rule ad)
  finally show ?thesis unfolding q_def .
qed

lemma ticks_first:
  assumes "round64 a = Fin a" and "js_isFinite st"
  shows "dbl_add (Fin a) (dbl_mul (Fin (real (0::nat))) st) = Fin a"
  using assms by (cases st) (simp_all add: dbl_mul_def dbl_add_def round64_def)

lemmas run_ticks = generateSafeTicks_def value_num_cases clamp_num_Fin js_le_def tickStep_def
  dbl_add_def dbl_sub_def dbl_mul_def dbl_div_def ticksLoop_Fin upt_rec run_round

text \<open>
  Claim C9, corrected. With \<open>a\<close> and \<open>b\<close> the coerced bounds and \<open>c\<close> the coerced tick
  count clamped to 2 and 20: when \<open>b \<le> a\<close> the result is the one value \<open>a\<close>. Otherwise,
  when \<open>c\<close> is a whole number, the result has exactly \<open>c\<close> values, the value at index
  \<open>i\<close> being \<open>a + i * step\<close> in double arithmetic with \<open>step = (b - a) / (c - 1)\<close>; the
  first value is \<open>a\<close> when \<open>a\<close> is a double and the step is finite. When \<open>a\<close> and \<open>b\<close> are
  whole numbers of magnitude at most \<open>2^52\<close> and \<open>b - a\<close> is a multiple of \<open>c - 1\<close>, every
  operation is exact, the values are \<open>a + i * (b - a) / (c - 1)\<close> and the last one is \<open>b\<close>;
  in general the last value is \<open>b\<close> only up to rounding.
\<close>

theorem generateSafeTicks_values:
  "\<exists>a b c.
     sn_value (SafeNumberImpl_num minv (Fin 0)) = Fin a \<and>
     sn_value (SafeNumberImpl_num maxv (Fin 0)) = Fin b \<and>
     sn_value (SafeNumber_clamp (SafeNumberImpl_num tickCount (Fin 5)) (Fin 2) (Fin 20)) = Fin c \<and>
     2 \<le> c \<and> c \<le> 20 \<and>
     (b \<le> a \<longrightarrow> generateSafeTicks minv maxv tickCount = Some [Fin a]) \<and>
     (a < b \<and> real_of_int \<lfloor>c\<rfloor> = c \<longrightarrow>
        (\<exists>ticks. generateSafeTicks minv maxv tickCount = Some ticks \<and>
           real (length ticks) = c \<and>
           (\<forall>i<length ticks.
              ticks ! i =
                dbl_add (Fin a) (dbl_mul (Fin (real i)) (tickStep (Fin a) (Fin b) (Fin c)))) \<and>
           (round64 a = Fin a \<and> js_isFinite (tickStep (Fin a) (Fin b) (Fin c)) \<longrightarrow>
              hd ticks = Fin a) \<and>
           (real_of_int \<lfloor>a\<rfloor> = a \<and> real_of_int \<lfloor>b\<rfloor> = b \<and>
            \<bar>a\<bar> \<le> 2 ^ 52 \<and> \<bar>b\<bar> \<le> 2 ^ 52 \<and>
            real_of_int \<lfloor>(b - a) / (c - 1)\<rfloor> = (b - a) / (c - 1) \<longrightarrow>
              (\<forall>i<length ticks. ticks ! i = Fin (a + real i * ((b - a) / (c - 1)))) \<and>
              last ticks = Fin b)))"
proof -
  obtain a where a: "sn_value (SafeNumberImpl_num minv (Fin 0)) = Fin a"
    using SafeNumberImpl_num_value_Fin by blast
  obtain b where b: "sn_value (SafeNumberImpl_num maxv (Fin 0)) = Fin b"
    using SafeNumberImpl_num_value_Fin by blast
  define c :: real where "c = max 2 (min 20 (case tickCount of Fin r \<Rightarrow> r | _ \<Rightarrow> 5))"
  have c: "sn_value (SafeNumber_clamp (SafeNumberImpl_num tickCount (Fin 5)) (Fin 2) (Fin 20)) =
             Fin c"
    unfolding c_def by (rule clamp_num_Fin)
  have c2: "2 \<le> c" and c20: "c \<le> 20" by (simp_all add: c_def)
  note run = ticks_run [OF a b c]
  let ?f = "\<lambda>i. dbl_add (Fin a) (dbl_mul (Fin (real i)) (tickStep (Fin a) (Fin b) (Fin c)))"
  let ?n = "nat \<lceil>c\<rceil>"
  have n2: "2 \<le> ?n" using c2 by linarith
  have n20: "?n \<le> 20" using c20 by linarith
  have le: "b \<le> a \<longrightarrow> generateSafeTicks minv maxv tickCount = Some [Fin a]"
    using run by simp
  have gt: "\<exists>ticks. generateSafeTicks minv maxv tickCount = Some ticks \<and>
           real (length ticks) = c \<and>
           (\<forall>i<length ticks. ticks ! i = ?f i) \<and>
           (round64 a = Fin a \<and> js_isFinite (tickStep (Fin a) (Fin b) (Fin c)) \<longrightarrow>
              hd ticks = Fin a) \<and>
           (real_of_int \<lfloor>a\<rfloor> = a \<and> real_of_int \<lfloor>b\<rfloor> = b \<and>
            \<bar>a\<bar> \<le> 2 ^ 52 \<and> \<bar>b\<bar> \<le> 2 ^ 52 \<and>
            real_of_int \<lfloor>(b - a) / (c - 1)\<rfloor> = (b - a) / (c - 1) \<longrightarrow>
              (\<forall>i<length ticks. ticks ! i = Fin (a + real i * ((b - a) / (c - 1)))) \<and>
              last ticks = Fin b)"
    if ab: "a < b" and whole: "real_of_int \<lfloor>c\<rfloor> = c"
  proof -
    have "\<lceil>c\<rceil> = \<lfloor>c\<rfloor>" by (metis whole ceiling_of_int)
    moreover have "0 \<le> \<lceil>c\<rceil>" using c2 by linarith
    ultimately have ceil: "real ?n = c" using whole by simp
    have cons: "[0..<?n] = 0 # [Suc 0..<?n]"
      using n2 by (intro upt_conv_Cons) linarith
    have ne: "[0..<?n] \<noteq> []" using cons by simp
    have l: "last (map ?f [0..<?n]) = ?f (?n - 1)"
      using ne n2 by (simp add: last_map)
    show ?thesis
    proof (intro exI conjI impI)
      show "generateSafeTicks minv maxv tickCount = Some (map ?f [0..<?n])"
        using run ab by simp
      show "real (length (map ?f [0..<?n])) = c" using ceil by simp
      show "\<forall>i<length (map ?f [0..<?n]). map ?f [0..<?n] ! i = ?f i" by simp
    next
      assume "round64 a = Fin a \<and> js_isFinite (tickStep (Fin a) (Fin b) (Fin c))"
      then have "?f 0 = Fin a" using ticks_first by simp
      then show "hd (map ?f [0..<?n]) = Fin a" using cons by simp
    next
      assume ex: "real_of_int \<lfloor>a\<rfloor> = a \<and> real_of_int \<lfloor>b\<rfloor> = b \<and>
            \<bar>a\<bar> \<le> 2 ^ 52 \<and> \<bar>b\<bar> \<le> 2 ^ 52 \<and>
            real_of_int \<lfloor>(b - a) / (c - 1)\<rfloor> = (b - a) / (c - 1)"
      have each: "?f i = Fin (a + real i * ((b - a) / (c - 1)))" if "i < ?n" for i
        using ticks_exact [OF ab _ _ _ _ ceil n2 n20 _ that] ex by blast
      then show "\<forall>i<length (map ?f [0..<?n]).
                   map ?f [0..<?n] ! i = Fin (a + real i * ((b - a) / (c - 1)))"
        by simp
      have r: "real (?n - 1) = c - 1" using ceil n2 by (simp add: of_nat_diff)
      have nz: "c - 1 \<noteq> 0" using c2 by simp
      have "?f (?n - 1) = Fin (a + (c - 1) * ((b - a) / (c - 1)))"
        using each [of "?n - 1"] n2 unfolding r by simp
      also have "\<dots> = Fin b" using nz by simp
      finally show "last (map ?f [0..<?n]) = Fin b" using l by simp
    qed
  qed
  show ?thesis using a b c c2 c20 le gt by blast
qed

text \<open>The two calls of the unit test: \<^verbatim>\<open>(0, 100, 5)\<close> and \<^verbatim>\<open>(100, 0, 5)\<close>.\<close>

lemma ticks_of_test:
  "generateSafeTicks (Fin 0) (Fin 100) (Fin 5) = Some [Fin 0, Fin 25, Fin 50, Fin 75, Fin 100]"
  "generateSafeTicks (Fin 100) (Fin 0) (Fin 5) = Some [Fin 100]"
  by (simp_all add: run_ticks)

theorem generateSafeTicks_values_witness:
  "generateSafeTicks (Fin 0) (Fin 100) (Fin 5) = Some [Fin 0, Fin 25, Fin 50, Fin 75, Fin 100] \<and>
   generateSafeTicks (Fin 100) (Fin 0) (Fin 5) = Some [Fin 100]"
  using generateSafeTicks_values [of "Fin 0" "Fin 100" "Fin 5"]
        generateSafeTicks_values [of "Fin 100" "Fin 0" "Fin 5"]
  by (simp only: ticks_of_test simp_thms)

text \<open>
  \<^verbatim>\<open>generateSafeTicks(0, 29, 8)\<close>: the last of the eight values is the double
  29.000000000000004, above the maximum 29.
\<close>

theorem generateSafeTicks_counterexample:
  "generateSafeTicks (Fin 0) (Fin 29) (Fin 8) =
     Some [Fin 0,
           Fin (4664442471205157 / 1125899906842624),
           Fin (4664442471205157 / 562949953421312),
           Fin (874582963350967 / 70368744177664),
           Fin (4664442471205157 / 281474976710656),
           Fin (2915276544503223 / 140737488355328),
           Fin (874582963350967 / 35184372088832),
           Fin (8162774324609025 / 281474976710656)] \<and>
   (29 :: real) < 8162774324609025 / 281474976710656"
  by (simp add: run_ticks)

section \<open>IntelligentCache: eviction\<close>

lemma sum_delete:
  "distinct (map fst ps) \<Longrightarrow> map_of ps k = Some e \<Longrightarrow>
   sum_list (map (\<lambda>p. int (entrySize (snd p))) (AList.delete k ps)) =
     sum_list (map (\<lambda>p. int (entrySize (snd p))) ps) - int (entrySize e)"
proof (induction ps)
  case Nil then show ?case by simp
next
  case (Cons p ps)
  show ?case
  proof (cases "fst p = k")
    case True
    with Cons.prems have "snd p = e" by (cases p) simp
    moreover from True Cons.prems have "k \<notin> fst ` set ps" by auto
    then have "AList.delete k ps = ps" by (simp add: delete_id)
    ultimately show ?thesis using True by (cases p) (simp add: AList.delete_eq)
  next
    case False
    with Cons show ?thesis by (cases p) (auto simp: AList.delete_eq)
  qed
qed

lemma evictKey_consistent: "consistent c \<Longrightarrow> consistent (evictKey chosen c)"
  by (auto simp: consistent_def evictKey_def entriesBytes_def sum_delete distinct_delete
           split: option.splits)

lemma sizes_nonneg: "0 \<le> sum_list (map (\<lambda>p. int (entrySize (snd p))) ps)"
  by (induction ps) simp_all

lemma entriesBytes_nonneg: "0 \<le> entriesBytes c"
  by (simp add: entriesBytes_def sizes_nonneg)

lemma evictKey_maxMemory: "maxMemory (evictKey chosen c) = maxMemory c"
  by (simp add: evictKey_def split: option.splits)

lemma evictKey_oversized: "oversized req c \<Longrightarrow> oversized req (evictKey chosen c)"
  by (simp add: oversized_def evictKey_consistent evictKey_maxMemory)

lemma memoryLoop_stuck:
  assumes "memoryLoop req c = Some y"
  shows "\<not> oversized req c"
proof (rule memoryLoop.raw_induct [where P = "\<lambda>req c y. \<not> oversized req c", OF _ assms])
  fix f req c y
  assume IH: "\<And>req c y. f req c = Some y \<Longrightarrow> \<not> oversized req c"
    and eq: "(if js_gt (Fin (real_of_int (currentMemory c + int req))) (maxMemory c)
              then f req (evictLargest c) else Some c) = Some y"
  show "\<not> oversized req c"
  proof
    assume s: "oversized req c"
    then obtain m where m: "maxMemory c = Fin m" "m < real req" by (auto simp: oversized_def)
    have "0 \<le> currentMemory c" using s by (simp add: oversized_def consistent_def entriesBytes_nonneg)
    then have "js_gt (Fin (real_of_int (currentMemory c + int req))) (maxMemory c)"
      using m by (simp add: js_gt_def)
    with eq have "f req (evictLargest c) = Some y" by simp
    from IH [OF this] s show False
      by (simp add: evictLargest_def evictKey_oversized)
  qed
qed

lemma sizeLoop_oversized:
  assumes "sizeLoop now c = Some y"
  shows "oversized req c \<longrightarrow> oversized req y"
proof (rule sizeLoop.raw_induct [where P = "\<lambda>now c y. oversized req c \<longrightarrow> oversized req y", OF _ assms])
  fix f now c y
  assume IH: "\<And>now c y. f now c = Some y \<Longrightarrow> oversized req c \<longrightarrow> oversized req y"
    and eq: "(if js_ge (Fin (real (length (cache c)))) (maxSize c)
              then f now (evictLeastUsed now c) else Some c) = Some y"
  show "oversized req c \<longrightarrow> oversized req y"
  proof (cases "js_ge (Fin (real (length (cache c)))) (maxSize c)")
    case True
    with eq have "f now (evictLeastUsed now c) = Some y" by simp
    from IH [OF this] show ?thesis
      by (simp add: evictLeastUsed_def evictKey_oversized)
  next
    case False
    with eq show ?thesis by simp
  qed
qed

text \<open>
  Claim C2, a defect of the code. \<^verbatim>\<open>set\<close> does not return when the estimated size of
  the value alone exceeds \<^verbatim>\<open>maxMemory\<close>: on a consistent cache that does not hold the
  key, the second loop of \<^verbatim>\<open>ensureSpace\<close> evicts until nothing is left to evict and
  then runs on, since its condition stays true.
\<close>

theorem set_oversized_never_returns:
  assumes "distinct (map fst (cache c))"
      and "currentMemory c = entriesBytes c"
      and "map_of (cache c) key = None"
      and "maxMemory c = Fin m"
      and "m < real (estimateSize blobSize v)"
  shows "IntelligentCache_set blobSize now key v deps c = None"
proof -
  have o: "oversized (estimateSize blobSize v) c"
    using assms by (simp add: oversized_def consistent_def)
  have "ensureSpace now (estimateSize blobSize v) c = None"
  proof (cases "sizeLoop now c")
    case None
    then show ?thesis by (simp add: ensureSpace_def)
  next
    case (Some c')
    with sizeLoop_oversized [OF Some] o have "oversized (estimateSize blobSize v) c'" by simp
    with memoryLoop_stuck have "memoryLoop (estimateSize blobSize v) c' = None"
      by (cases "memoryLoop (estimateSize blobSize v) c'") auto
    with Some show ?thesis by (simp add: ensureSpace_def)
  qed
  then show ?thesis using assms(3) by (simp add: IntelligentCache_set_def)
qed

text \<open>
  On a new cache of 10 MB, \<^verbatim>\<open>set('k', 'x'.repeat(5242881))\<close>, estimated at 10485762
  bytes without \<^verbatim>\<open>Blob\<close>, does not return.
\<close>

theorem set_oversized_never_returns_witness:
  "estimateSize blobUnavailable (JStr (replicate 5242881 CHR ''x'')) = 10485762 \<and>
   maxMemory (IntelligentCache_new (Fin 100) (Fin 10)) = Fin 10485760 \<and>
   IntelligentCache_set blobUnavailable 0 ''k'' (JStr (replicate 5242881 CHR ''x'')) (JArr [])
     (IntelligentCache_new (Fin 100) (Fin 10)) = None"
  using set_oversized_never_returns [of "IntelligentCache_new (Fin 100) (Fin 10)" "''k''" 10485760
          blobUnavailable "JStr (replicate 5242881 CHR ''x'')" 0 "JArr []"]
  by (simp add: new_cache entriesBytes_def estimateSize_def blobUnavailable_def)

lemmas run_set = new_cache IntelligentCache_set_def ensureSpace_def sizeLoop.simps
        memoryLoop.simps js_ge_def js_le_def js_gt_def estimateSize_def blobUnavailable_def
        safeArray_def SafeArrayImpl_def SafeArray_toArray_def evictLargest_def evictKey_def
        evictLeastUsed_def AList.delete_eq

lemma twoEntries_value:
  "twoEntries = Some \<lparr> cache =
      [(''k'', \<lparr> data = JStr (replicate 2097152 CHR ''x''), timestamp = 0, accessCount = 1,
                 entrySize = 4194304, dependencies = [] \<rparr>),
       (''j'', \<lparr> data = JStr (replicate 1572864 CHR ''x''), timestamp = 1, accessCount = 1,
                 entrySize = 3145728, dependencies = [] \<rparr>)],
      maxSize = Fin 100, maxMemory = Fin 10485760, currentMemory = 7340032 \<rparr>"
  by (simp add: twoEntries_def run_set)

lemma overwritten_value:
  "overwritten = Some \<lparr> cache =
      [(''j'', \<lparr> data = JStr (replicate 1572864 CHR ''x''), timestamp = 1, accessCount = 1,
                 entrySize = 3145728, dependencies = [] \<rparr>),
       (''k'', \<lparr> data = JStr (replicate 4194304 CHR ''x''), timestamp = 2, accessCount = 1,
                 entrySize = 8388608, dependencies = [] \<rparr>)],
      maxSize = Fin 100, maxMemory = Fin 10485760, currentMemory = 7340032 \<rparr>"
  by (simp add: overwritten_def twoEntries_value run_set)

text \<open>
  Claim C1, a defect of the code. The invariant holds after the first two calls of
  \<^verbatim>\<open>set\<close>. The third call overwrites the key \<^verbatim>\<open>k\<close>: it subtracts the old entry's size,
  leaves the old entry in the map, and \<^verbatim>\<open>evictLargest\<close> then evicts that entry and
  subtracts its size again. The call returns with \<^verbatim>\<open>currentMemory\<close> 7340032 while the
  entries hold 11534336 bytes, more than \<^verbatim>\<open>maxMemory\<close>.
\<close>

theorem overwrite_breaks_invariant:
  "map_option cacheInvariant twoEntries = Some True \<and>
   map_option currentMemory overwritten = Some 7340032 \<and>
   map_option entriesBytes overwritten = Some 11534336 \<and>
   map_option maxMemory overwritten = Some (Fin 10485760) \<and>
   map_option cacheInvariant overwritten = Some False"
  by (simp add: twoEntries_value overwritten_value cacheInvariant_def entriesBytes_def js_le_def)

section \<open>SafeVirtualScrolling: the visible range\<close>

lemmas run_scroll = calculateVisibleItems_def safeArray_def SafeArrayImpl_def itemValidator_def
  SafeArray_isEmpty_def SafeNumber_clamp_def SafeNumberImpl_num_def Math_max_def Math_min_def
  findStartIndex.simps offsetLoop.simps findEndIndex.simps SafeArray_at_def array_read_def
  js_or_def js_ge_def js_le_def js_gt_def js_sub_def heightOf_def safeNumber_def
  SafeNumberImpl_def coerceInput_def SafeArray_reduce_def totalStep_def Let_def

lemma offsetLoop_returns: "\<exists>r. offsetLoop N st a (Fin x) i acc = Some r"
proof (induction "nat \<lceil>x\<rceil> - i" arbitrary: i acc)
  case 0
  then have "\<not> real i < x" by linarith
  then show ?case by (subst offsetLoop.simps) simp
next
  case (Suc d)
  then have "d = nat \<lceil>x\<rceil> - Suc i" by linarith
  from Suc.hyps(1) [OF this] show ?case
    by (subst offsetLoop.simps) simp
qed

lemma findEndIndex_returns: "\<exists>r. findEndIndex N st a ch ov (Fin x) vh = Some r"
proof (induction "nat \<lceil>real (sa_length a) - x\<rceil>" arbitrary: x vh)
  case 0
  then have "\<not> x < real (sa_length a)" by linarith
  then show ?case by (subst findEndIndex.simps) simp
next
  case (Suc d)
  then have "d = nat \<lceil>real (sa_length a) - (x + 1)\<rceil>" by linarith
  from Suc.hyps(1) [OF this] show ?case
    by (subst findEndIndex.simps) simp
qed

lemma findStartIndex_Fin:
  "\<exists>r. findStartIndex N st a sT (Fin v) i off = Fin r"
proof (induction "sa_length a - i" arbitrary: i off)
  case 0
  then show ?case by (subst findStartIndex.simps) simp
next
  case (Suc d)
  then have "d = sa_length a - Suc i" by linarith
  from Suc.hyps(1) [OF this] show ?case
    by (subst findStartIndex.simps) (simp add: Math_max_def js_sub_def)
qed

lemma clamp_value_Fin: "\<exists>r. sn_value (SafeNumber_clamp s lo hi) = Fin r"
  by (simp add: SafeNumber_clamp_def SafeNumberImpl_num_value_Fin)

lemma calculateVisibleItems_returns: "\<exists>r. calculateVisibleItems N items st = Some r"
proof -
  obtain v where v: "sn_value (SafeNumber_clamp (SafeNumberImpl_num (overscan st) (Fin 5)) (Fin 0) (Fin 20)) = Fin v"
    using clamp_value_Fin by blast
  show ?thesis
    unfolding calculateVisibleItems_def Let_def v
    using findStartIndex_Fin offsetLoop_returns findEndIndex_returns
    by (auto split: option.splits) (metis option.distinct(1))+
qed


lemma itemValidator_truthy: "itemValidator item \<Longrightarrow> js_truthy item"
  by (simp add: itemValidator_def)

lemma heightOf_Fin: "js_get item ''height'' = JNum (Fin h) \<Longrightarrow> heightOf N st item = Fin h"
  by (simp add: heightOf_def safeNumber_def SafeNumberImpl_def SafeNumberImpl_num_def
        coerceInput_def)

lemma valid_height_pos:
  "itemValidator item \<Longrightarrow> js_get item ''height'' = JNum (Fin h) \<Longrightarrow> 0 < h"
  by (simp add: itemValidator_def js_gt_def)

lemma findStartIndex_equal_heights:
  assumes d: "sa_data a = items" and l: "sa_length a = length items"
      and valid: "\<forall>item\<in>set items. itemValidator item \<and> js_get item ''height'' = JNum (Fin h)"
      and h: "0 < h"
      and lo: "real i * h \<le> s" and hi: "s < real (length items) * h"
  shows "findStartIndex N st a (Fin s) (Fin 0) i (Fin (real i * h)) = Fin (real_of_int \<lfloor>s / h\<rfloor>)"
  using lo
proof (induction "length items - i" arbitrary: i)
  case 0
  then have "real (length items) \<le> real i" by simp
  then have "real (length items) * h \<le> real i * h" using h by (simp add: mult_right_mono)
  with 0 hi show ?case by linarith
next
  case (Suc k)
  then have i: "i < length items" by linarith
  then have it: "items ! i \<in> set items" by simp
  have at: "SafeArray_at a (Fin (real i)) = items ! i"
    using at_in_range [of a i] d l i it valid by (simp add: itemValidator_truthy)
  have tr: "js_truthy (items ! i)" using it valid by (simp add: itemValidator_truthy)
  have ht: "heightOf N st (items ! i) = Fin h" using it valid by (simp add: heightOf_Fin)
  show ?case
  proof (cases "s < real i * h + h")
    case True
    have "real_of_int (int i) \<le> s / h" using Suc.prems h by (simp add: pos_le_divide_eq)
    moreover have "s / h < real_of_int (int i) + 1"
      using True h by (simp add: pos_divide_less_eq algebra_simps)
    ultimately have "\<lfloor>s / h\<rfloor> = int i" by (rule floor_unique)
    then show ?thesis using True i l at tr ht
      by (subst findStartIndex.simps) (simp add: js_gt_def Math_max_def js_sub_def)
  next
    case False
    then have nxt: "real (Suc i) * h \<le> s" by (simp add: algebra_simps)
    have k: "k = length items - Suc i" using Suc.hyps(2) by linarith
    have "real i * h + h = real (Suc i) * h" by (simp add: algebra_simps)
    then show ?thesis using False i l at tr ht Suc.hyps(1) [OF k nxt]
      by (subst findStartIndex.simps) (simp add: js_gt_def)
  qed
qed

text \<open>
  Claim C5, corrected. For a non-empty list of \<open>n\<close> valid items that all have the
  whole-number height \<open>h\<close>, with \<open>n * h\<close> at most \<open>2^53\<close>, overscan \<open>0\<close> and a scroll offset
  \<open>s\<close> within the content, \<open>0 \<le> s < n * h\<close>, the call returns and \<^verbatim>\<open>startIndex\<close> is the
  floor of \<open>s / h\<close>. On these inputs every sum and every difference the first loop
  forms is a whole number of magnitude at most \<open>2^53\<close>: the double operation gives the
  result of the exact operation the model is written with.
\<close>

theorem startIndex_equal_heights:
  assumes ne: "items \<noteq> []"
      and valid: "\<forall>item\<in>set items. itemValidator item \<and> js_get item ''height'' = JNum (Fin h)"
      and whole: "real_of_int \<lfloor>h\<rfloor> = h"
      and small: "real (length items) * h \<le> 2 ^ 53"
      and ov: "overscan st = Fin 0"
      and sc: "scrollTop st = Fin s"
      and s0: "0 \<le> s"
      and inside: "s < real (length items) * h"
  shows "(\<exists>r. calculateVisibleItems N (JArr items) st = Some r \<and>
              startIndex r = Fin (real_of_int \<lfloor>s / h\<rfloor>)) \<and>
         (\<forall>k<length items.
            dbl_add (Fin (real k * h)) (Fin h) = js_add (Fin (real k * h)) (Fin h) \<and>
            dbl_sub (Fin (real k)) (Fin 0) = js_sub (Fin (real k)) (Fin 0))"
proof
  let ?a = "safeArray (JArr items) (Some itemValidator)"
  have flt: "filter itemValidator items = items" using valid by (simp add: filter_id_conv)
  have d: "sa_data ?a = items" and l: "sa_length ?a = length items"
    by (simp_all add: safeArray_def SafeArrayImpl_def flt)
  have nonempty: "\<not> SafeArray_isEmpty ?a" using ne l by (simp add: SafeArray_isEmpty_def)
  from ne obtain x where "x \<in> set items" by (cases items) auto
  with valid have h: "0 < h" using valid_height_pos by blast
  have sT: "sn_value (SafeNumber_clamp (SafeNumberImpl_num (scrollTop st) (Fin 0)) (Fin 0) PosInf) =
              Fin s"
    using s0
    by (simp add: sc SafeNumber_clamp_def SafeNumberImpl_num_def Math_max_def Math_min_def)
  have oV: "sn_value (SafeNumber_clamp (SafeNumberImpl_num (overscan st) (Fin 5)) (Fin 0) (Fin 20)) =
              Fin 0"
    by (simp add: ov SafeNumber_clamp_def SafeNumberImpl_num_def Math_max_def Math_min_def)
  have start: "findStartIndex N st ?a (Fin s) (Fin 0) 0 (Fin 0) = Fin (real_of_int \<lfloor>s / h\<rfloor>)"
    using findStartIndex_equal_heights [OF d l valid h _ inside, of 0 N st] s0 by simp
  obtain r where r: "calculateVisibleItems N (JArr items) st = Some r"
    using calculateVisibleItems_returns by blast
  then have "startIndex r = Fin (real_of_int \<lfloor>s / h\<rfloor>)"
    using nonempty
    by (auto simp: calculateVisibleItems_def Let_def sT oV start split: option.splits)
  with r show "\<exists>r. calculateVisibleItems N (JArr items) st = Some r \<and>
              startIndex r = Fin (real_of_int \<lfloor>s / h\<rfloor>)" by blast
  have h1: "1 \<le> h"
  proof -
    have "0 < \<lfloor>h\<rfloor>" using h whole by (metis of_int_0_less_iff)
    then have "1 \<le> real_of_int \<lfloor>h\<rfloor>" by simp
    then show ?thesis by (simp only: whole)
  qed
  show "\<forall>k<length items.
          dbl_add (Fin (real k * h)) (Fin h) = js_add (Fin (real k * h)) (Fin h) \<and>
          dbl_sub (Fin (real k)) (Fin 0) = js_sub (Fin (real k)) (Fin 0)"
  proof (intro allI impI conjI)
    fix k assume k: "k < length items"
    have w: "real_of_int (int (Suc k) * \<lfloor>h\<rfloor>) = real k * h + h"
      by (simp only: of_int_mult of_int_of_nat_eq whole of_nat_Suc) (simp add: algebra_simps)
    have "real (Suc k) \<le> real (length items)" using k by simp
    then have le: "real (Suc k) * h \<le> real (length items) * h"
      using h by (intro mult_right_mono) simp_all
    moreover have "0 \<le> real k * h + h" using h by simp
    moreover have "real (Suc k) * h = real k * h + h" by (simp add: algebra_simps)
    ultimately have "\<bar>real k * h + h\<bar> \<le> 2 ^ 53" using small by simp
    with w have "round64 (real k * h + h) = Fin (real k * h + h)" by (rule round64_whole)
    then show "dbl_add (Fin (real k * h)) (Fin h) = js_add (Fin (real k * h)) (Fin h)"
      by (simp add: dbl_add_Fin)
    have "real (Suc k) \<le> real (Suc k) * h"
      using mult_left_mono [of 1 h "real (Suc k)"] h1 by simp
    also have "\<dots> \<le> real (length items) * h" by (rule le)
    also have "\<dots> \<le> 2 ^ 53" by (rule small)
    finally have "real (Suc k) \<le> 2 ^ 53" .
    then have "real k \<le> 2 ^ 53" by simp
    then have "\<bar>real k\<bar> \<le> 2 ^ 53" by simp
    moreover have "real_of_int (int k) = real k" by simp
    ultimately have "round64 (real k) = Fin (real k)" by (intro round64_whole)
    then show "dbl_sub (Fin (real k)) (Fin 0) = js_sub (Fin (real k)) (Fin 0)"
      by (simp add: dbl_sub_Fin js_sub_def)
  qed
qed

text \<open>Three items of height 10 and scroll offset 25: the start index is 2.\<close>

theorem startIndex_equal_heights_witness:
  "calculateVisibleItems Number_plain
     (JArr [JObj [(''id'', JStr ''a''), (''height'', JNum (Fin 10))],
            JObj [(''id'', JStr ''b''), (''height'', JNum (Fin 10))],
            JObj [(''id'', JStr ''c''), (''height'', JNum (Fin 10))]])
     \<lparr> scrollTop = Fin 25, containerHeight = Fin 400, itemHeight = Fin 50, overscan = Fin 0 \<rparr> =
   Some \<lparr> startIndex = Fin 2, endIndex = Fin 2, totalHeight = Fin 30, offsetY = Fin 20 \<rparr> \<and>
   \<lfloor>25 / 10 :: real\<rfloor> = 2"
  using startIndex_equal_heights [of
     "[JObj [(''id'', JStr ''a''), (''height'', JNum (Fin 10))],
       JObj [(''id'', JStr ''b''), (''height'', JNum (Fin 10))],
       JObj [(''id'', JStr ''c''), (''height'', JNum (Fin 10))]]" 10
     "\<lparr> scrollTop = Fin 25, containerHeight = Fin 400, itemHeight = Fin 50, overscan = Fin 0 \<rparr>"
     25 Number_plain]
  by (simp add: run_scroll)

text \<open>
  One item of height 10 and scroll offset 25, beyond the content: the first loop ends
  without a \<^verbatim>\<open>break\<close> and \<^verbatim>\<open>startIndex\<close> is 0, while the floor of 25 / 10 is 2.
\<close>

theorem startIndex_counterexample:
  "map_option startIndex
     (calculateVisibleItems Number_plain
        (JArr [JObj [(''id'', JStr ''a''), (''height'', JNum (Fin 10))]])
        \<lparr> scrollTop = Fin 25, containerHeight = Fin 400, itemHeight = Fin 50,
          overscan = Fin 0 \<rparr>) = Some (Fin 0) \<and>
   \<lfloor>25 / 10 :: real\<rfloor> = 2"
  by (simp add: run_scroll)

lemma reduceFrom_totalStep:
  "reduceFrom (totalStep N st) i acc xs = foldl js_add acc (map (heightOf N st) xs)"
  by (induction xs arbitrary: i acc) (simp_all add: totalStep_def)

lemma valid_height_cases:
  assumes "itemValidator x"
  shows "(\<exists>h. js_get x ''height'' = JNum (Fin h) \<and> 0 < h \<and> heightOf N st x = Fin h) \<or>
         (js_get x ''height'' = JNum PosInf \<and>
          heightOf N st x = (if js_truthy (JNum (itemHeight st)) then itemHeight st else Fin 50))"
proof (cases "js_get x ''height''")
  case (JNum n)
  with assms show ?thesis
    by (cases n)
       (simp_all add: itemValidator_def js_gt_def heightOf_def safeNumber_def SafeNumberImpl_def
          SafeNumberImpl_num_def coerceInput_def)
qed (insert assms, simp_all add: itemValidator_def)

text \<open>
  Claim C4, corrected. An item that fails the validator (no string id, or a height
  that is no number, NaN, zero or negative) is dropped before any calculation: the
  result is that of the list without it. An item that passes has either a finite
  positive height, which is used as it is, or the height \<^verbatim>\<open>Infinity\<close>, and only then
  counts with the default \<^verbatim>\<open>state.itemHeight || 50\<close>. The call returns, and
  \<^verbatim>\<open>totalHeight\<close> is the sum of these heights over the items that pass.
\<close>

theorem invalid_items_dropped:
  "(\<not> itemValidator x \<longrightarrow>
      calculateVisibleItems N (JArr (xs @ x # ys)) st = calculateVisibleItems N (JArr (xs @ ys)) st) \<and>
   (itemValidator x \<longrightarrow>
      (\<exists>h. js_get x ''height'' = JNum (Fin h) \<and> 0 < h \<and> heightOf N st x = Fin h) \<or>
      (js_get x ''height'' = JNum PosInf \<and>
       heightOf N st x = (if js_truthy (JNum (itemHeight st)) then itemHeight st else Fin 50))) \<and>
   (\<exists>r. calculateVisibleItems N (JArr items) st = Some r \<and>
        totalHeight r = foldl js_add (Fin 0) (map (heightOf N st) (filter itemValidator items)))"
proof (intro conjI impI)
  assume "\<not> itemValidator x"
  then show "calculateVisibleItems N (JArr (xs @ x # ys)) st = calculateVisibleItems N (JArr (xs @ ys)) st"
    by (simp add: calculateVisibleItems_def safeArray_def SafeArrayImpl_def)
next
  assume "itemValidator x"
  then show "(\<exists>h. js_get x ''height'' = JNum (Fin h) \<and> 0 < h \<and> heightOf N st x = Fin h) \<or>
      (js_get x ''height'' = JNum PosInf \<and>
       heightOf N st x = (if js_truthy (JNum (itemHeight st)) then itemHeight st else Fin 50))"
    by (rule valid_height_cases)
next
  obtain r where r: "calculateVisibleItems N (JArr items) st = Some r"
    using calculateVisibleItems_returns by blast
  then have "totalHeight r = foldl js_add (Fin 0) (map (heightOf N st) (filter itemValidator items))"
    by (auto simp: calculateVisibleItems_def Let_def safeArray_def SafeArrayImpl_def
          SafeArray_isEmpty_def SafeArray_reduce_def reduceFrom_totalStep
          split: option.splits if_splits)
  with r show "\<exists>r. calculateVisibleItems N (JArr items) st = Some r \<and>
        totalHeight r = foldl js_add (Fin 0) (map (heightOf N st) (filter itemValidator items))"
    by blast
qed

text \<open>
  Default height 50 and the items \<^verbatim>\<open>{id: 'a'}\<close>, \<^verbatim>\<open>{id: 'b', height: 30}\<close> and
  \<^verbatim>\<open>{id: 'c', height: Infinity}\<close>: the result is that of the last two items alone, with
  \<^verbatim>\<open>totalHeight\<close> 30 + 50.
\<close>

theorem invalid_items_dropped_witness:
  "calculateVisibleItems Number_plain
     (JArr [JObj [(''id'', JStr ''a'')],
            JObj [(''id'', JStr ''b''), (''height'', JNum (Fin 30))],
            JObj [(''id'', JStr ''c''), (''height'', JNum PosInf)]])
     \<lparr> scrollTop = Fin 40, containerHeight = Fin 400, itemHeight = Fin 50, overscan = Fin 0 \<rparr> =
   Some \<lparr> startIndex = Fin 1, endIndex = Fin 1, totalHeight = Fin 80, offsetY = Fin 30 \<rparr> \<and>
   calculateVisibleItems Number_plain
     (JArr [JObj [(''id'', JStr ''b''), (''height'', JNum (Fin 30))],
            JObj [(''id'', JStr ''c''), (''height'', JNum PosInf)]])
     \<lparr> scrollTop = Fin 40, containerHeight = Fin 400, itemHeight = Fin 50, overscan = Fin 0 \<rparr> =
   Some \<lparr> startIndex = Fin 1, endIndex = Fin 1, totalHeight = Fin 80, offsetY = Fin 30 \<rparr> \<and>
   \<not> itemValidator (JObj [(''id'', JStr ''a'')]) \<and>
   itemValidator (JObj [(''id'', JStr ''c''), (''height'', JNum PosInf)])"
  using invalid_items_dropped [of "JObj [(''id'', JStr ''a'')]" Number_plain "[]"
     "[JObj [(''id'', JStr ''b''), (''height'', JNum (Fin 30))],
       JObj [(''id'', JStr ''c''), (''height'', JNum PosInf)]]"
     "\<lparr> scrollTop = Fin 40, containerHeight = Fin 400, itemHeight = Fin 50, overscan = Fin 0 \<rparr>"]
  by (simp add: run_scroll)

text \<open>
  Default height 50 and the one item \<^verbatim>\<open>{id: 'a', height: -5}\<close>: the item is dropped,
  the list counts as empty and \<^verbatim>\<open>totalHeight\<close> is 0, not 50.
\<close>

theorem invalid_items_dropped_counterexample:
  "calculateVisibleItems Number_plain
     (JArr [JObj [(''id'', JStr ''a''), (''height'', JNum (Fin (- 5)))]])
     \<lparr> scrollTop = Fin 0, containerHeight = Fin 400, itemHeight = Fin 50, overscan = Fin 0 \<rparr> =
   Some \<lparr> startIndex = Fin 0, endIndex = Fin 0, totalHeight = Fin 0, offsetY = Fin 0 \<rparr>"
  by (simp add: run_scroll)

end
